theory Spec2Isabelle
  imports Complex_Main "HOL-Library.Log_Nat"
begin

section \<open>The Paraboloid component of the OpenMDAO tutorial notebook\<close>

text \<open>
  The notebook \<^verbatim>\<open>Paraboloid.ipynb\<close> declares one class, \<^verbatim>\<open>Paraboloid(Component)\<close>,
  with a constructor and two methods, and then runs it inside the OpenMDAO framework.
  The methods compute on Python floats, which are IEEE-754 binary64 numbers: every
  addition, subtraction and multiplication rounds its exact result to the nearest
  double (ties to the even significand), overflows to an infinity and propagates NaN,
  and the power operator raises \<^verbatim>\<open>OverflowError\<close> when its result overflows. The
  dictionaries \<^verbatim>\<open>params\<close>, \<^verbatim>\<open>unknowns\<close> and \<^verbatim>\<open>resids\<close> are maps from names to doubles;
  a read of a missing key is the \<^verbatim>\<open>KeyError\<close> Python raises.
\<close>

subsection \<open>Python floats\<close>

text \<open>
  A finite double is a sign, a significand and an exponent, with the value
  \<open>(-1)\<^sup>s * m * 2\<^sup>e\<close>. The results of the operations below are in the form the
  hardware stores: \<open>m < 2\<^sup>5\<^sup>3\<close>, \<open>-1074 \<le> e \<le> 971\<close>, and \<open>2\<^sup>5\<^sup>2 \<le> m\<close> unless
  \<open>e = -1074\<close>; a zero is \<open>m = 0\<close> at \<open>e = -1074\<close> and keeps its sign. All NaNs are
  one value.
\<close>

datatype double = Finite bool nat int | Infinity bool | NaN

fun is_finite :: "double \<Rightarrow> bool" where
  "is_finite (Finite s m e) = True"
| "is_finite (Infinity s) = False"
| "is_finite NaN = False"

text \<open>The real number a finite double stands for (0 for the others).\<close>

fun valof :: "double \<Rightarrow> real" where
  "valof (Finite s m e) = (if s then - 1 else 1) * of_nat m * 2 powi e"
| "valof (Infinity s) = 0"
| "valof NaN = 0"

text \<open>
  Rounding of the exact value \<open>a * 2\<^sup>e\<close>, \<open>a > 0\<close>, with sign \<open>s\<close>. The exponent
  \<open>q\<close> of the result leaves 53 bits to the significand, and is never below that of
  the subnormal numbers. \<open>Nearest\<close> is the rounding of the arithmetic operations;
  \<open>Directed up\<close> rounds an inexact value away from zero when \<open>up\<close> holds and towards
  zero otherwise.
\<close>

datatype rmode = Nearest | Directed bool

definition round_up :: "rmode \<Rightarrow> int \<Rightarrow> int \<Rightarrow> nat \<Rightarrow> bool" where
  "round_up mode M0 r sh =
     (case mode of
        Nearest \<Rightarrow> 2 * r > 2 ^ sh \<or> (2 * r = 2 ^ sh \<and> odd M0)
      | Directed up \<Rightarrow> r \<noteq> 0 \<and> up)"

definition finish :: "bool \<Rightarrow> int \<Rightarrow> int \<Rightarrow> double" where
  "finish s M q =
     (if M = 2 ^ 53
      then (if q + 1 > 971 then Infinity s else Finite s (2 ^ 52) (q + 1))
      else (if q > 971 then Infinity s else Finite s (nat M) q))"

definition rnd :: "rmode \<Rightarrow> bool \<Rightarrow> int \<Rightarrow> int \<Rightarrow> double" where
  "rnd mode s a e =
     (let b = bitlen a;
          q = max (e + b - 53) (- 1074)
      in if q \<le> e then finish s (a * 2 ^ nat (e - q)) q
         else (let sh = nat (q - e);
                   M0 = a div 2 ^ sh;
                   r = a mod 2 ^ sh
               in finish s (if round_up mode M0 r sh then M0 + 1 else M0) q))"

definition zero :: "bool \<Rightarrow> double" where
  "zero s = Finite s 0 (- 1074)"

text \<open>A float literal with an integral value, such as \<^verbatim>\<open>3.0\<close>.\<close>

definition flt :: "int \<Rightarrow> double" where
  "flt n = (if n = 0 then zero False else rnd Nearest (n < 0) \<bar>n\<bar> 0)"

fun fneg :: "double \<Rightarrow> double" where
  "fneg (Finite s m e) = Finite (\<not> s) m e"
| "fneg (Infinity s) = Infinity (\<not> s)"
| "fneg NaN = NaN"

definition signed :: "bool \<Rightarrow> nat \<Rightarrow> int" where
  "signed s m = (if s then - int m else int m)"

text \<open>
  \<^verbatim>\<open>a + b\<close>: the exact sum is formed at the smaller exponent and rounded. An exact
  zero sum is \<open>-0.0\<close> only when both operands are negative (zeros).
\<close>

fun fadd :: "double \<Rightarrow> double \<Rightarrow> double" where
  "fadd NaN b = NaN"
| "fadd a NaN = NaN"
| "fadd (Infinity s) (Infinity t) = (if s = t then Infinity s else NaN)"
| "fadd (Infinity s) (Finite t m e) = Infinity s"
| "fadd (Finite s m e) (Infinity t) = Infinity t"
| "fadd (Finite s1 m1 e1) (Finite s2 m2 e2) =
     (let e = min e1 e2;
          m = signed s1 m1 * 2 ^ nat (e1 - e) + signed s2 m2 * 2 ^ nat (e2 - e)
      in if m = 0 then zero (s1 \<and> s2) else rnd Nearest (m < 0) \<bar>m\<bar> e)"

text \<open>\<^verbatim>\<open>a - b\<close>.\<close>

definition fsub :: "double \<Rightarrow> double \<Rightarrow> double" where
  "fsub a b = fadd a (fneg b)"

text \<open>\<^verbatim>\<open>a * b\<close>.\<close>

fun fmul :: "double \<Rightarrow> double \<Rightarrow> double" where
  "fmul NaN b = NaN"
| "fmul a NaN = NaN"
| "fmul (Infinity s) (Infinity t) = Infinity (s \<noteq> t)"
| "fmul (Infinity s) (Finite t m e) = (if m = 0 then NaN else Infinity (s \<noteq> t))"
| "fmul (Finite s m e) (Infinity t) = (if m = 0 then NaN else Infinity (s \<noteq> t))"
| "fmul (Finite s1 m1 e1) (Finite s2 m2 e2) =
     (if m1 = 0 \<or> m2 = 0 then zero (s1 \<noteq> s2)
      else rnd Nearest (s1 \<noteq> s2) (int m1 * int m2) (e1 + e2))"


datatype py_error = KeyError string | OverflowError

text \<open>
  \<^verbatim>\<open>a ** 2\<close>. Python converts the exponent to 2.0, answers NaN, the infinities and
  the zeros itself, and otherwise calls \<^verbatim>\<open>pow\<close> of the C library; when that overflows
  it raises \<^verbatim>\<open>OverflowError\<close>. The C library is not part of the notebook, and its
  \<^verbatim>\<open>pow\<close> is accurate to less than one unit in the last place without being correctly
  rounded: it returns the square when that is a double, and otherwise one of the two
  doubles next to it (towards zero \<open>lo\<close>, away from zero \<open>hi\<close>, which is the infinity
  past the largest double). Which of the two is the parameter \<open>up\<close>, a function of
  the base.
\<close>

fun float_pow :: "(double \<Rightarrow> bool) \<Rightarrow> double \<Rightarrow> py_error + double" where
  "float_pow up NaN = Inr NaN"
| "float_pow up (Infinity s) = Inr (Infinity False)"
| "float_pow up (Finite s m e) =
     (if m = 0 then Inr (zero False)
      else (let lo = rnd (Directed False) False (int m * int m) (2 * e);
                hi = rnd (Directed True) False (int m * int m) (2 * e);
                r = (if lo = hi then lo else if up (Finite s m e) then hi else lo)
            in case r of Infinity t \<Rightarrow> Inl OverflowError | _ \<Rightarrow> Inr r))"

text \<open>One C library: the \<^verbatim>\<open>pow\<close> that rounds every square to the nearest double.\<close>

fun correctly_rounded :: "double \<Rightarrow> bool" where
  "correctly_rounded (Finite s m e) =
     (rnd Nearest False (int m * int m) (2 * e)
        = rnd (Directed True) False (int m * int m) (2 * e))"
| "correctly_rounded d = False"

text \<open>
  A finite double with the value \<open>n * 2\<^sup>g\<close>, for reasoning about results that are
  exact.
\<close>

definition gridv :: "int \<Rightarrow> double \<Rightarrow> int \<Rightarrow> bool" where
  "gridv g d n \<longleftrightarrow> is_finite d \<and> valof d = of_int n * 2 powi g"

subsection \<open>Data\<close>

type_synonym vec = "string \<rightharpoonup> double"

type_synonym jacobian = "(string \<times> string) \<rightharpoonup> double"

text \<open>
  What \<^verbatim>\<open>add_output\<close> stores for a declared output, as the notebook describes it:
  with \<^verbatim>\<open>shape=1\<close> the scalar 0.0, with any other shape \<^verbatim>\<open>numpy.zeros(shape)\<close>.
\<close>

datatype pyval = Scalar double | Zeros nat

text \<open>The component object: the declarations its constructor registers.\<close>

record component =
  comp_params :: "string \<rightharpoonup> double"
  comp_outputs :: "string \<rightharpoonup> pyval"

text \<open>
  The three dictionaries every method receives. They are mutable objects of the
  caller, so a method returns them as it leaves them.
\<close>

record call_state =
  params :: vec
  unknowns :: vec
  resids :: vec

subsection \<open>The constructor\<close>

text \<open>
  \<^verbatim>\<open>add_param\<close> and \<^verbatim>\<open>add_output\<close> belong to the framework's \<^verbatim>\<open>Component\<close> base
  class; they are modelled as the registrations the notebook's text describes.
  \<^verbatim>\<open>
  def __init__(self):
      super(Paraboloid, self).__init__()
      self.add_param('x', val=0.0)
      self.add_param('y', val=0.0)
      self.add_output('f_xy', shape=1)
  \<close>
\<close>

definition Component_init :: component where
  "Component_init = \<lparr>comp_params = Map.empty, comp_outputs = Map.empty\<rparr>"

definition add_param :: "string \<Rightarrow> double \<Rightarrow> component \<Rightarrow> component" where
  "add_param name val self = self\<lparr>comp_params := (comp_params self)(name \<mapsto> val)\<rparr>"

definition add_output :: "string \<Rightarrow> nat \<Rightarrow> component \<Rightarrow> component" where
  "add_output name shape self =
     self\<lparr>comp_outputs :=
       (comp_outputs self)(name \<mapsto> (if shape = 1 then Scalar (flt 0) else Zeros shape))\<rparr>"

definition Paraboloid_init :: component where
  "Paraboloid_init =
     add_output ''f_xy'' 1 (add_param ''y'' (flt 0) (add_param ''x'' (flt 0) Component_init))"

subsection \<open>The methods\<close>

text \<open>
  \<^verbatim>\<open>
  def solve_nonlinear(self, params, unknowns, resids):
      x = params['x']
      y = params['y']
      unknowns['f_xy'] = (x-3.0)**2 + x*y + (y+4.0)**2 - 3.0
  \<close>
  The right-hand side is evaluated from left to right: the first square, the product,
  their sum, the second square, the second sum, the difference. Either square can
  raise, and then nothing is written.
\<close>

definition f_xy :: "(double \<Rightarrow> bool) \<Rightarrow> double \<Rightarrow> double \<Rightarrow> py_error + double" where
  "f_xy up x y =
     (case float_pow up (fsub x (flt 3)) of
        Inl err \<Rightarrow> Inl err
      | Inr p1 \<Rightarrow>
          (let t1 = fadd p1 (fmul x y) in
           case float_pow up (fadd y (flt 4)) of
             Inl err \<Rightarrow> Inl err
           | Inr p2 \<Rightarrow> Inr (fsub (fadd t1 p2) (flt 3))))"

definition solve_nonlinear ::
  "(double \<Rightarrow> bool) \<Rightarrow> component \<Rightarrow> call_state \<Rightarrow> py_error + call_state" where
  "solve_nonlinear up self st =
     (case params st ''x'' of
        None \<Rightarrow> Inl (KeyError ''x'')
      | Some x \<Rightarrow>
          (case params st ''y'' of
             None \<Rightarrow> Inl (KeyError ''y'')
           | Some y \<Rightarrow>
               (case f_xy up x y of
                  Inl err \<Rightarrow> Inl err
                | Inr v \<Rightarrow> Inr (st\<lparr>unknowns := (unknowns st)(''f_xy'' \<mapsto> v)\<rparr>))))"

text \<open>
  \<^verbatim>\<open>
  def linearize(self, params, unknowns, resids):
      x = params['x']
      y = params['y']
      J = {}
      J['f_xy', 'x'] = 2.0*x - 6.0 + y
      J['f_xy', 'y'] = 2.0*y + 8.0 + x
      return J
  \<close>
  The result is the returned dictionary together with the three arguments. No
  operation of this method can raise.
\<close>

definition linearize :: "component \<Rightarrow> call_state \<Rightarrow> py_error + (jacobian \<times> call_state)" where
  "linearize self st =
     (case params st ''x'' of
        None \<Rightarrow> Inl (KeyError ''x'')
      | Some x \<Rightarrow>
          (case params st ''y'' of
             None \<Rightarrow> Inl (KeyError ''y'')
           | Some y \<Rightarrow>
               (let J0 = Map.empty;
                    J1 = J0((''f_xy'', ''x'') \<mapsto> fadd (fsub (fmul (flt 2) x) (flt 6)) y);
                    J2 = J1((''f_xy'', ''y'') \<mapsto> fadd (fadd (fmul (flt 2) y) (flt 8)) x)
                in Inr (J2, st))))"

subsection \<open>Running the model\<close>

text \<open>
  The notebook runs the component inside a \<^verbatim>\<open>Problem\<close> called \<^verbatim>\<open>top\<close>:
  \<^verbatim>\<open>
  root.add('p', Paraboloid(), promotes=['x', 'y'])
  top.setup()
  top['x'] = 5.0
  top['y'] = 2.0
  top.run()
  print(top['p.f_xy'])
  \<close>
  The framework is not part of the notebook. Of it, the model keeps what the notebook
  says it does: \<^verbatim>\<open>setup\<close> allocates the vectors from the declarations (a param that
  nothing is connected to keeps its declared value), an assignment to \<^verbatim>\<open>top[name]\<close>
  stores a param, \<^verbatim>\<open>run\<close> under the default driver calls \<^verbatim>\<open>solve_nonlinear\<close>
  once, and a gradient-based driver calls \<^verbatim>\<open>linearize\<close> for the derivatives.
  Array-valued outputs have no entry in a vector of scalars; the Paraboloid declares none.
\<close>

definition scalars :: "(string \<rightharpoonup> pyval) \<Rightarrow> vec" where
  "scalars m k = (case m k of Some (Scalar v) \<Rightarrow> Some v | _ \<Rightarrow> None)"

definition top_setup :: "component \<Rightarrow> call_state" where
  "top_setup self =
     \<lparr>params = comp_params self,
      unknowns = scalars (comp_outputs self),
      resids = (\<lambda>k. map_option (\<lambda>v. flt 0) (scalars (comp_outputs self) k))\<rparr>"

definition top_set :: "string \<Rightarrow> double \<Rightarrow> call_state \<Rightarrow> call_state" where
  "top_set name val st = st\<lparr>params := (params st)(name \<mapsto> val)\<rparr>"

definition top_run :: "(double \<Rightarrow> bool) \<Rightarrow> double \<Rightarrow> double \<Rightarrow> py_error + double" where
  "top_run up x0 y0 =
     (let p = Paraboloid_init;
          st = top_set ''y'' y0 (top_set ''x'' x0 (top_setup p))
      in case solve_nonlinear up p st of
           Inl err \<Rightarrow> Inl err
         | Inr st' \<Rightarrow>
             (case unknowns st' ''f_xy'' of
                None \<Rightarrow> Inl (KeyError ''f_xy'')
              | Some v \<Rightarrow> Inr v))"

definition top_linearize :: "double \<Rightarrow> double \<Rightarrow> py_error + (double \<times> double)" where
  "top_linearize x0 y0 =
     (let p = Paraboloid_init;
          st = top_set ''y'' y0 (top_set ''x'' x0 (top_setup p))
      in case linearize p st of
           Inl err \<Rightarrow> Inl err
         | Inr (J, st') \<Rightarrow>
             (case J (''f_xy'', ''x'') of
                None \<Rightarrow> Inl (KeyError ''f_xy,x'')
              | Some gx \<Rightarrow>
                  (case J (''f_xy'', ''y'') of
                     None \<Rightarrow> Inl (KeyError ''f_xy,y'')
                   | Some gy \<Rightarrow> Inr (gx, gy))))"



subsection \<open>The objective expression as written\<close>

text \<open>
  The syntax of the right-hand side of the assignment in \<^verbatim>\<open>solve_nonlinear\<close>, with
  Python's precedence: \<^verbatim>\<open>**\<close> binds tighter than \<^verbatim>\<open>*\<close>, which binds tighter than
  the left-associative \<^verbatim>\<open>+\<close> and \<^verbatim>\<open>-\<close>. \<open>Pow2\<close> is a power with the literal
  exponent 2, the only power of the source. Evaluation is from left to right and
  stops at the first error.
\<close>

datatype expr =
    Num int
  | Name string
  | Add expr expr
  | Sub expr expr
  | Mult expr expr
  | Pow2 expr

fun eval :: "(double \<Rightarrow> bool) \<Rightarrow> (string \<Rightarrow> double) \<Rightarrow> expr \<Rightarrow> py_error + double" where
  "eval up env (Num c) = Inr (flt c)"
| "eval up env (Name n) = Inr (env n)"
| "eval up env (Add a b) =
     (case eval up env a of Inl err \<Rightarrow> Inl err
      | Inr u \<Rightarrow> (case eval up env b of Inl err \<Rightarrow> Inl err | Inr v \<Rightarrow> Inr (fadd u v)))"
| "eval up env (Sub a b) =
     (case eval up env a of Inl err \<Rightarrow> Inl err
      | Inr u \<Rightarrow> (case eval up env b of Inl err \<Rightarrow> Inl err | Inr v \<Rightarrow> Inr (fsub u v)))"
| "eval up env (Mult a b) =
     (case eval up env a of Inl err \<Rightarrow> Inl err
      | Inr u \<Rightarrow> (case eval up env b of Inl err \<Rightarrow> Inl err | Inr v \<Rightarrow> Inr (fmul u v)))"
| "eval up env (Pow2 a) =
     (case eval up env a of Inl err \<Rightarrow> Inl err | Inr u \<Rightarrow> float_pow up u)"

fun pow_count :: "expr \<Rightarrow> nat" where
  "pow_count (Num c) = 0"
| "pow_count (Name n) = 0"
| "pow_count (Add a b) = pow_count a + pow_count b"
| "pow_count (Sub a b) = pow_count a + pow_count b"
| "pow_count (Mult a b) = pow_count a + pow_count b"
| "pow_count (Pow2 a) = Suc (pow_count a)"

definition f_xy_expr :: expr where
  "f_xy_expr =
     Sub (Add (Add (Pow2 (Sub (Name ''x'') (Num 3))) (Mult (Name ''x'') (Name ''y'')))
              (Pow2 (Add (Name ''y'') (Num 4))))
         (Num 3)"

text \<open>
  The multiplication form, from the specification's words: each square is the product
  of the base with itself.
\<close>

definition f_xy_mult_expr :: expr where
  "f_xy_mult_expr =
     Sub (Add (Add (Mult (Sub (Name ''x'') (Num 3)) (Sub (Name ''x'') (Num 3)))
                   (Mult (Name ''x'') (Name ''y'')))
              (Mult (Add (Name ''y'') (Num 4)) (Add (Name ''y'') (Num 4))))
         (Num 3)"

definition f_xy_mult :: "double \<Rightarrow> double \<Rightarrow> double" where
  "f_xy_mult x y =
     fsub (fadd (fadd (fmul (fsub x (flt 3)) (fsub x (flt 3))) (fmul x y))
                (fmul (fadd y (flt 4)) (fadd y (flt 4))))
          (flt 3)"

definition solve_nonlinear_mult :: "component \<Rightarrow> call_state \<Rightarrow> py_error + call_state" where
  "solve_nonlinear_mult self st =
     (case params st ''x'' of
        None \<Rightarrow> Inl (KeyError ''x'')
      | Some x \<Rightarrow>
          (case params st ''y'' of
             None \<Rightarrow> Inl (KeyError ''y'')
           | Some y \<Rightarrow> Inr (st\<lparr>unknowns := (unknowns st)(''f_xy'' \<mapsto> f_xy_mult x y)\<rparr>)))"

definition xy_env :: "double \<Rightarrow> double \<Rightarrow> string \<Rightarrow> double" where
  "xy_env x y n = (if n = ''x'' then x else if n = ''y'' then y else NaN)"

subsection \<open>Exact results\<close>

text \<open>
  A value with at most 53 significant bits, above the subnormal spacing and below the
  overflow threshold, is a double: rounding it changes nothing, in any mode.
\<close>

lemma two_powi_nat: "0 \<le> k \<Longrightarrow> (2::real) powi k = 2 ^ nat k"
  by (simp add: power_int_def)

lemma two_powi_less_cancel: "(2::real) powi i < 2 powi j \<Longrightarrow> i < j"
  by (rule ccontr) (use power_int_increasing [of j i "2::real"] in simp)

lemma two_powi_pos [simp]: "0 < (2::real) powi k"
  by (simp add: zero_less_power_int)

lemma rnd_exact:
  assumes a: "0 < a"
    and eq: "of_int a * 2 powi e = of_int n * (2::real) powi g"
    and n: "n < 2 ^ 53"
    and g: "- 1074 \<le> g" "g \<le> 971"
  shows "is_finite (rnd mode s a e)
      \<and> valof (rnd mode s a e) = (if s then - 1 else 1) * (of_int a * 2 powi e)
      \<and> rnd mode s a e = rnd Nearest s a e"
proof -
  define b where "b = bitlen a"
  define q where "q = max (e + b - 53) (- 1074)"
  from bitlen_bounds [OF a] have lo: "2 ^ nat (b - 1) \<le> a" and hi: "a < 2 ^ nat b"
    by (simp_all add: b_def)
  have b1: "1 \<le> b"
    using a bitlen_eq_zero_iff [of a] bitlen_nonneg [of a] by (simp add: b_def)
  have lo': "(2::real) powi (b - 1) \<le> of_int a"
  proof -
    have "(2::real) powi (b - 1) = of_int (2 ^ nat (b - 1))"
      using b1 by (simp add: two_powi_nat)
    also have "\<dots> \<le> of_int a"
      using lo by (simp only: of_int_le_iff)
    finally show ?thesis .
  qed
  have hi': "of_int a < (2::real) powi b"
  proof -
    have "of_int a < (of_int (2 ^ nat b) :: real)"
      using hi by (simp only: of_int_less_iff)
    also have "\<dots> = 2 powi b"
      using b1 by (simp add: two_powi_nat)
    finally show ?thesis .
  qed
  have qg: "q \<le> g"
  proof -
    have "(2::real) powi (b - 1 + e) = 2 powi (b - 1) * 2 powi e"
      by (simp add: power_int_add)
    also have "\<dots> \<le> of_int a * 2 powi e"
      using lo' by (simp add: mult_right_mono)
    also have "\<dots> = of_int n * 2 powi g"
      by (rule eq)
    also have "\<dots> < 2 ^ 53 * 2 powi g"
    proof -
      have "(of_int n :: real) < of_int (2 ^ 53)"
        using n by (simp only: of_int_less_iff)
      then show ?thesis by (simp add: mult_strict_right_mono)
    qed
    also have "\<dots> = 2 powi (53 + g)"
      by (simp add: power_int_add)
    finally have "b - 1 + e < 53 + g"
      by (rule two_powi_less_cancel)
    then show ?thesis
      using g by (simp add: q_def)
  qed
  have q_ge: "e + b - 53 \<le> q"
    by (simp add: q_def)
  have "\<exists>M. (\<forall>mode. rnd mode s a e = finish s M q) \<and> (of_int M :: real) = of_int a * 2 powi (e - q)"
  proof (cases "q \<le> e")
    case True
    have "(of_int (a * 2 ^ nat (e - q)) :: real) = of_int a * 2 powi (e - q)"
      using True by (simp add: two_powi_nat)
    moreover have "rnd mode s a e =
        (if q \<le> e then finish s (a * 2 ^ nat (e - q)) q
         else finish s (if round_up mode (a div 2 ^ nat (q - e)) (a mod 2 ^ nat (q - e)) (nat (q - e))
                        then a div 2 ^ nat (q - e) + 1 else a div 2 ^ nat (q - e)) q)" for mode
      by (simp only: rnd_def Let_def b_def q_def)
    then have "rnd mode s a e = finish s (a * 2 ^ nat (e - q)) q" for mode
      using True by simp
    ultimately show ?thesis by blast
  next
    case False
    define sh where "sh = nat (q - e)"
    have ge: "0 < g - e" and shle: "sh \<le> nat (g - e)"
      using False qg by (simp_all add: sh_def)
    have "(of_int a :: real) * 2 powi e * 2 powi (- e) = of_int n * 2 powi g * 2 powi (- e)"
      using eq by simp
    then have "(of_int a :: real) = of_int n * 2 powi (g - e)"
      by (simp add: power_int_diff power_int_minus field_simps)
    also have "\<dots> = of_int (n * 2 ^ nat (g - e))"
      using ge by (simp add: two_powi_nat)
    finally have an: "a = n * 2 ^ nat (g - e)"
      by (simp only: of_int_eq_iff)
    have "(2::int) ^ nat (g - e) = 2 ^ sh * 2 ^ (nat (g - e) - sh)"
      using shle by (simp flip: power_add)
    then have dv: "(2::int) ^ sh dvd a"
      unfolding an by simp
    then have r0: "a mod 2 ^ sh = 0"
      by (simp add: dvd_eq_mod_eq_0)
    have up: "\<not> round_up mode (a div 2 ^ sh) 0 sh" for mode
      by (cases mode) (simp_all add: round_up_def)
    have "rnd mode s a e =
        (if q \<le> e then finish s (a * 2 ^ nat (e - q)) q
         else finish s (if round_up mode (a div 2 ^ sh) (a mod 2 ^ sh) sh
                        then a div 2 ^ sh + 1 else a div 2 ^ sh) q)" for mode
      by (simp only: rnd_def Let_def b_def q_def sh_def)
    then have r: "rnd mode s a e = finish s (a div 2 ^ sh) q" for mode
      using False up [of mode] r0 by simp
    have "a = (a div 2 ^ sh) * 2 ^ sh"
      using dv by simp
    then have "(of_int a :: real) = of_int (a div 2 ^ sh) * 2 ^ sh"
      by (metis of_int_mult of_int_numeral of_int_power)
    moreover have "(2::real) powi (e - q) = 1 / 2 ^ sh"
      using False by (simp add: sh_def power_int_def nat_diff_distrib field_simps)
    ultimately have "(of_int (a div 2 ^ sh) :: real) = of_int a * 2 powi (e - q)"
      by simp
    with r show ?thesis by blast
  qed
  then obtain M where M: "\<And>mode. rnd mode s a e = finish s M q"
    and Mv: "(of_int M :: real) = of_int a * 2 powi (e - q)"
    by blast
  have "(of_int M :: real) < 2 powi b * 2 powi (e - q)"
    unfolding Mv using hi' by (simp add: mult_strict_right_mono)
  also have "\<dots> = 2 powi (b + e - q)"
    by (simp add: power_int_add power_int_diff)
  also have "\<dots> \<le> 2 powi 53"
    using q_ge by (intro power_int_increasing) simp_all
  finally have "(of_int M :: real) < of_int (2 ^ 53)"
    by simp
  then have M53: "M < 2 ^ 53"
    by (simp only: of_int_less_iff)
  have "0 < (of_int M :: real)"
    unfolding Mv using a by simp
  then have M0: "0 \<le> M"
    by simp
  have fin: "finish s M q = Finite s (nat M) q"
    using M53 qg g by (simp add: finish_def)
  have "of_int M * (2::real) powi q = of_int a * 2 powi e"
    unfolding Mv by (simp add: power_int_diff)
  then have "valof (Finite s (nat M) q) = (if s then - 1 else 1) * (of_int a * 2 powi e)"
    using M0 by simp
  then show ?thesis
    using M fin by simp
qed

lemma rnd_gridv:
  assumes m: "m \<noteq> 0"
    and eq: "of_int m * 2 powi e = of_int n * (2::real) powi g"
    and n: "\<bar>n\<bar> < 2 ^ 53"
    and g: "- 1074 \<le> g" "g \<le> 971"
  shows "gridv g (rnd mode (m < 0) \<bar>m\<bar> e) n"
    and "rnd mode (m < 0) \<bar>m\<bar> e = rnd Nearest (m < 0) \<bar>m\<bar> e"
proof -
  have sgn: "(m < 0) = (n < 0)"
  proof -
    have "(of_int m * (2::real) powi e < 0) = (of_int n * (2::real) powi g < 0)"
      by (simp only: eq)
    moreover have "\<not> (2::real) powi i < 0" for i
      using two_powi_pos [of i] by (simp only: not_less less_imp_le)
    ultimately show ?thesis
      by (simp add: mult_less_0_iff)
  qed
  have "\<bar>of_int m * (2::real) powi e\<bar> = \<bar>of_int n * (2::real) powi g\<bar>"
    by (simp only: eq)
  then have eq': "of_int \<bar>m\<bar> * (2::real) powi e = of_int \<bar>n\<bar> * 2 powi g"
    by (simp add: abs_mult)
  have pos: "0 < \<bar>m\<bar>"
    using m by simp
  note R = rnd_exact [OF pos eq' n g, of mode "m < 0"]
  from R show "rnd mode (m < 0) \<bar>m\<bar> e = rnd Nearest (m < 0) \<bar>m\<bar> e"
    by blast
  from R have fin: "is_finite (rnd mode (m < 0) \<bar>m\<bar> e)"
    by blast
  from R have "valof (rnd mode (m < 0) \<bar>m\<bar> e)
      = (if m < 0 then - 1 else 1) * (of_int \<bar>m\<bar> * 2 powi e)"
    by blast
  also have "\<dots> = (if m < 0 then - 1 else 1) * (of_int \<bar>n\<bar> * 2 powi g)"
    by (simp only: eq')
  also have "\<dots> = of_int n * 2 powi g"
    using sgn by (cases "n < 0") simp_all
  finally show "gridv g (rnd mode (m < 0) \<bar>m\<bar> e) n"
    using fin by (simp only: gridv_def simp_thms)
qed

lemma valof_signed: "valof (Finite s m e) = of_int (signed s m) * 2 powi e"
  by (simp add: signed_def)

lemma gridv_zero: "gridv g d n \<Longrightarrow> valof d = 0 \<Longrightarrow> n = 0"
  by (simp add: gridv_def)

lemma fadd_gridv:
  assumes a: "gridv g a n" and b: "gridv g b k"
    and nk: "\<bar>n + k\<bar> < 2 ^ 53"
    and g: "- 1074 \<le> g" "g \<le> 971"
  shows "gridv g (fadd a b) (n + k)"
proof -
  from a obtain s1 m1 e1 where A: "a = Finite s1 m1 e1"
    by (cases a) (simp_all add: gridv_def)
  from b obtain s2 m2 e2 where B: "b = Finite s2 m2 e2"
    by (cases b) (simp_all add: gridv_def)
  define e where "e = min e1 e2"
  define m where "m = signed s1 m1 * 2 ^ nat (e1 - e) + signed s2 m2 * 2 ^ nat (e2 - e)"
  have e1: "(2::real) powi e1 = 2 ^ nat (e1 - e) * 2 powi e"
  proof -
    have "(2::real) powi e1 = 2 powi (e1 - e) * 2 powi e"
      by (simp flip: power_int_add)
    then show ?thesis
      by (simp add: two_powi_nat e_def)
  qed
  have e2: "(2::real) powi e2 = 2 ^ nat (e2 - e) * 2 powi e"
  proof -
    have "(2::real) powi e2 = 2 powi (e2 - e) * 2 powi e"
      by (simp flip: power_int_add)
    then show ?thesis
      by (simp add: two_powi_nat e_def)
  qed
  have sum: "of_int m * (2::real) powi e = valof a + valof b"
    unfolding A B valof_signed m_def
    by (simp add: e1 e2 algebra_simps)
  also have "\<dots> = of_int (n + k) * 2 powi g"
    using a b by (simp add: gridv_def algebra_simps)
  finally have eq: "of_int m * (2::real) powi e = of_int (n + k) * 2 powi g" .
  have r: "fadd a b = (if m = 0 then zero (s1 \<and> s2) else rnd Nearest (m < 0) \<bar>m\<bar> e)"
    unfolding A B by (simp only: fadd.simps Let_def m_def e_def)
  show ?thesis
  proof (cases "m = 0")
    case True
    with eq have "n + k = 0"
      by simp
    with True r show ?thesis
      by (simp add: gridv_def zero_def)
  next
    case False
    with r rnd_gridv(1) [OF False eq nk g] show ?thesis
      by simp
  qed
qed

lemma fneg_gridv: "gridv g a n \<Longrightarrow> gridv g (fneg a) (- n)"
  by (cases a) (auto simp add: gridv_def)

lemma fsub_gridv:
  assumes "gridv g a n" and "gridv g b k" and "\<bar>n - k\<bar> < 2 ^ 53" and "- 1074 \<le> g" "g \<le> 971"
  shows "gridv g (fsub a b) (n - k)"
  using fadd_gridv [OF assms(1) fneg_gridv [OF assms(2)]] assms(3-5)
  by (simp add: fsub_def)

lemma fmul_gridv:
  assumes a: "gridv g a n" and b: "gridv h b k"
    and nk: "\<bar>n * k\<bar> < 2 ^ 53"
    and g: "- 1074 \<le> g + h" "g + h \<le> 971"
  shows "gridv (g + h) (fmul a b) (n * k)"
proof -
  from a obtain s1 m1 e1 where A: "a = Finite s1 m1 e1"
    by (cases a) (simp_all add: gridv_def)
  from b obtain s2 m2 e2 where B: "b = Finite s2 m2 e2"
    by (cases b) (simp_all add: gridv_def)
  have prod: "valof a * valof b = of_int (n * k) * 2 powi (g + h)"
    using a b by (simp add: gridv_def power_int_add)
  show ?thesis
  proof (cases "m1 = 0 \<or> m2 = 0")
    case True
    then have "valof a * valof b = 0"
      unfolding A B by auto
    with prod have "n * k = 0"
      by simp
    with True show ?thesis
      unfolding A B by (simp add: gridv_def zero_def)
  next
    case False
    define m where "m = signed s1 m1 * signed s2 m2"
    have m0: "m \<noteq> 0"
      using False by (simp add: m_def signed_def)
    have neg: "(m < 0) = (s1 \<noteq> s2)"
      using False by (auto simp add: m_def signed_def mult_less_0_iff)
    have ab: "\<bar>m\<bar> = int m1 * int m2"
      by (simp add: m_def signed_def abs_mult)
    have "of_int m * (2::real) powi (e1 + e2) = valof a * valof b"
      unfolding A B valof_signed m_def by (simp add: power_int_add)
    with prod have eq: "of_int m * (2::real) powi (e1 + e2) = of_int (n * k) * 2 powi (g + h)"
      by simp
    from rnd_gridv(1) [OF m0 eq nk g, of Nearest] False show ?thesis
      unfolding A B by (simp add: neg ab)
  qed
qed

lemma float_pow_gridv:
  assumes a: "gridv g a n"
    and nn: "n * n < 2 ^ 53"
    and g: "- 1074 \<le> g + g" "g + g \<le> 971"
  shows "\<exists>r. float_pow up a = Inr r \<and> r = fmul a a \<and> gridv (g + g) r (n * n)"
proof -
  from a obtain s m e where A: "a = Finite s m e"
    by (cases a) (simp_all add: gridv_def)
  have nn': "\<bar>n * n\<bar> < 2 ^ 53"
    using nn by simp
  note M = fmul_gridv [OF a a nn' g]
  show ?thesis
  proof (cases "m = 0")
    case True
    then show ?thesis
      using M unfolding A by simp
  next
    case False
    have gg: "(2::real) powi (g + g) = 2 powi g * 2 powi g"
      by (rule power_int_add) simp
    define z where "z = int m * int m"
    have z0: "z \<noteq> 0" and zpos: "\<not> z < 0" and zabs: "\<bar>z\<bar> = z"
      using False by (simp_all add: z_def)
    have "(2::real) powi (e + e) = 2 powi e * 2 powi e"
      by (rule power_int_add) simp
    moreover have "2 * e = e + e"
      by simp
    ultimately have sq: "(2::real) powi (2 * e) = 2 powi e * 2 powi e"
      by (simp only:)
    have "of_int z * (2::real) powi (2 * e) = valof a * valof a"
      unfolding A z_def by (simp add: sq)
    also have "\<dots> = of_int (n * n) * 2 powi (g + g)"
      unfolding gg using a by (simp add: gridv_def)
    finally have eq: "of_int z * (2::real) powi (2 * e) = of_int (n * n) * 2 powi (g + g)" .
    from rnd_gridv(2) [OF z0 eq nn' g]
    have modes: "rnd mode False z (2 * e) = rnd Nearest False z (2 * e)" for mode
      by (simp add: zpos zabs)
    have mul: "fmul a a = rnd Nearest False z (2 * e)"
      unfolding A using False by (simp add: z_def flip: mult_2)
    from M have "is_finite (rnd Nearest False z (2 * e))"
      by (simp add: mul gridv_def)
    then have "float_pow up a = Inr (rnd Nearest False z (2 * e))"
      unfolding A using False modes
      by (cases "rnd Nearest False z (2 * e)") (simp_all add: z_def Let_def)
    with M mul show ?thesis
      by simp
  qed
qed

lemma gridv_refine:
  assumes "gridv g d n" and "h \<le> g"
  shows "gridv h d (n * 2 ^ nat (g - h))"
proof -
  have "(2::real) powi g = 2 powi (g - h) * 2 powi h"
    by (simp flip: power_int_add)
  then have "(2::real) powi g = 2 ^ nat (g - h) * 2 powi h"
    using assms(2) by (simp add: two_powi_nat)
  with assms(1) show ?thesis
    by (simp add: gridv_def)
qed

lemma flt_gridv:
  assumes "\<bar>n\<bar> < 2 ^ 53"
  shows "gridv 0 (flt n) n"
proof (cases "n = 0")
  case True
  then show ?thesis
    by (simp add: flt_def zero_def gridv_def)
next
  case False
  have "of_int n * (2::real) powi 0 = of_int n * 2 powi 0"
    by simp
  from rnd_gridv(1) [OF False this assms, of Nearest] False show ?thesis
    by (simp add: flt_def)
qed

lemma flt_val:
  assumes "\<bar>n\<bar> < 2 ^ 53"
  shows "is_finite (flt n)" and "valof (flt n) = of_int n"
  using flt_gridv [OF assms] by (simp_all add: gridv_def)

lemma gridv_1024: "gridv (- 10) x n = (is_finite x \<and> valof x = of_int n / 1024)"
  by (simp add: gridv_def power_int_minus_divide)

lemma gridv_1048576: "gridv (- 20) x n = (is_finite x \<and> valof x = of_int n / 1048576)"
  by (simp add: gridv_def power_int_minus_divide)

lemma flt_grid10:
  assumes "\<bar>c\<bar> < 2 ^ 40"
  shows "gridv (- 10) (flt c) (c * 1024)"
proof -
  have "\<bar>c\<bar> < 2 ^ 53"
    using assms by simp
  from gridv_refine [OF flt_gridv [OF this], of "- 10"] show ?thesis
    by simp
qed

lemma flt_grid20:
  assumes "\<bar>c\<bar> < 2 ^ 30"
  shows "gridv (- 20) (flt c) (c * 1048576)"
proof -
  have "\<bar>c\<bar> < 2 ^ 53"
    using assms by simp
  from gridv_refine [OF flt_gridv [OF this], of "- 20"] show ?thesis
    by simp
qed

lemma square_bound:
  fixes a :: int
  assumes "\<bar>a\<bar> \<le> c"
  shows "a * a \<le> c * c" and "0 \<le> a * a"
proof -
  have "a * a = \<bar>a\<bar> * \<bar>a\<bar>"
    by simp
  also have "\<dots> \<le> c * c"
    using assms by (intro mult_mono) simp_all
  finally show "a * a \<le> c * c" .
  show "0 \<le> a * a"
    by simp
qed

lemma product_bound:
  fixes a b :: int
  assumes "\<bar>a\<bar> \<le> c" and "\<bar>b\<bar> \<le> d"
  shows "\<bar>a * b\<bar> \<le> c * d"
proof -
  have "\<bar>a * b\<bar> = \<bar>a\<bar> * \<bar>b\<bar>"
    by (simp add: abs_mult)
  also have "\<dots> \<le> c * d"
    using assms by (intro mult_mono) simp_all
  finally show ?thesis .
qed

text \<open>
  The objective on inputs that are multiples of 1/1024 of magnitude at most 16384:
  every operation is exact, and the powers are the products.
\<close>

lemma f_xy_grid:
  assumes x: "gridv (- 10) x n" and y: "gridv (- 10) y k"
    and n: "\<bar>n\<bar> \<le> 2 ^ 24" and k: "\<bar>k\<bar> \<le> 2 ^ 24"
  shows "f_xy up x y = Inr (f_xy_mult x y)"
    and "gridv (- 20) (f_xy_mult x y)
           ((n - 3072) * (n - 3072) + n * k + (k + 4096) * (k + 4096) - 3145728)"
proof -
  define A where "A = (n - 3072) * (n - 3072)"
  define B where "B = n * k"
  define C where "C = (k + 4096) * (k + 4096)"
  have "\<bar>n - 3072\<bar> \<le> 16780288"
    using n by simp
  from square_bound [OF this] have A: "0 \<le> A" "A \<le> 281578065362944"
    by (simp_all add: A_def)
  have "\<bar>k + 4096\<bar> \<le> 16781312"
    using k by simp
  from square_bound [OF this] have C: "0 \<le> C" "C \<le> 281612432441344"
    by (simp_all add: C_def)
  from product_bound [of n 16777216 k 16777216] n k have B: "\<bar>B\<bar> \<le> 281474976710656"
    by (simp add: B_def)
  have c3: "gridv (- 10) (flt 3) 3072"
    using flt_grid10 [of 3] by simp
  have c4: "gridv (- 10) (flt 4) 4096"
    using flt_grid10 [of 4] by simp
  have c3': "gridv (- 20) (flt 3) 3145728"
    using flt_grid20 [of 3] by simp
  have d1: "gridv (- 10) (fsub x (flt 3)) (n - 3072)"
    using n by (intro fsub_gridv [OF x c3]) simp_all
  from float_pow_gridv [OF d1, of up] A
  have p1: "float_pow up (fsub x (flt 3)) = Inr (fmul (fsub x (flt 3)) (fsub x (flt 3)))"
    and p1g: "gridv (- 20) (fmul (fsub x (flt 3)) (fsub x (flt 3))) A"
    by (auto simp add: A_def)
  have xy: "gridv (- 20) (fmul x y) B"
    using fmul_gridv [OF x y] B by (simp add: B_def)
  have t1: "gridv (- 20) (fadd (fmul (fsub x (flt 3)) (fsub x (flt 3))) (fmul x y)) (A + B)"
    using A B by (intro fadd_gridv [OF p1g xy]) simp_all
  have d2: "gridv (- 10) (fadd y (flt 4)) (k + 4096)"
    using k by (intro fadd_gridv [OF y c4]) simp_all
  from float_pow_gridv [OF d2, of up] C
  have p2: "float_pow up (fadd y (flt 4)) = Inr (fmul (fadd y (flt 4)) (fadd y (flt 4)))"
    and p2g: "gridv (- 20) (fmul (fadd y (flt 4)) (fadd y (flt 4))) C"
    by (auto simp add: C_def)
  have t2: "gridv (- 20)
      (fadd (fadd (fmul (fsub x (flt 3)) (fsub x (flt 3))) (fmul x y))
            (fmul (fadd y (flt 4)) (fadd y (flt 4)))) (A + B + C)"
    using A B C by (intro fadd_gridv [OF t1 p2g]) simp_all
  have "gridv (- 20) (f_xy_mult x y) (A + B + C - 3145728)"
    unfolding f_xy_mult_def using A B C by (intro fsub_gridv [OF t2 c3']) simp_all
  then show "gridv (- 20) (f_xy_mult x y)
           ((n - 3072) * (n - 3072) + n * k + (k + 4096) * (k + 4096) - 3145728)"
    by (simp only: A_def B_def C_def)
  show "f_xy up x y = Inr (f_xy_mult x y)"
    by (simp add: f_xy_def f_xy_mult_def p1 p2)
qed

lemma f_xy_grid_value:
  assumes "gridv (- 10) x n" and "gridv (- 10) y k"
    and "\<bar>n\<bar> \<le> 2 ^ 24" and "\<bar>k\<bar> \<le> 2 ^ 24"
  shows "is_finite (f_xy_mult x y)"
    and "valof (f_xy_mult x y)
           = (valof x - 3)\<^sup>2 + valof x * valof y + (valof y + 4)\<^sup>2 - 3"
proof -
  from f_xy_grid(2) [OF assms]
  have g: "gridv (- 20) (f_xy_mult x y)
           ((n - 3072) * (n - 3072) + n * k + (k + 4096) * (k + 4096) - 3145728)" .
  then show "is_finite (f_xy_mult x y)"
    by (simp add: gridv_def)
  have vx: "valof x = of_int n / 1024" and vy: "valof y = of_int k / 1024"
    using assms(1,2) by (simp_all add: gridv_1024)
  from g have "valof (f_xy_mult x y)
      = of_int ((n - 3072) * (n - 3072) + n * k + (k + 4096) * (k + 4096) - 3145728) / 1048576"
    by (simp only: gridv_1048576)
  also have "\<dots> = (valof x - 3)\<^sup>2 + valof x * valof y + (valof y + 4)\<^sup>2 - 3"
    unfolding vx vy by (simp add: power2_eq_square field_simps)
  finally show "valof (f_xy_mult x y)
           = (valof x - 3)\<^sup>2 + valof x * valof y + (valof y + 4)\<^sup>2 - 3" .
qed

text \<open>The two derivative expressions on the same inputs.\<close>

lemma linearize_grid:
  assumes x: "gridv (- 10) x n" and y: "gridv (- 10) y k"
    and n: "\<bar>n\<bar> \<le> 2 ^ 24" and k: "\<bar>k\<bar> \<le> 2 ^ 24"
  shows "gridv (- 10) (fadd (fsub (fmul (flt 2) x) (flt 6)) y) (2 * n - 6144 + k)"
    and "gridv (- 10) (fadd (fadd (fmul (flt 2) y) (flt 8)) x) (2 * k + 8192 + n)"
proof -
  have c2: "gridv 0 (flt 2) 2"
    by (rule flt_gridv) simp
  have c6: "gridv (- 10) (flt 6) 6144"
    using flt_grid10 [of 6] by simp
  have c8: "gridv (- 10) (flt 8) 8192"
    using flt_grid10 [of 8] by simp
  have x2: "gridv (- 10) (fmul (flt 2) x) (2 * n)"
    using fmul_gridv [OF c2 x] n by simp
  have y2: "gridv (- 10) (fmul (flt 2) y) (2 * k)"
    using fmul_gridv [OF c2 y] k by simp
  have x6: "gridv (- 10) (fsub (fmul (flt 2) x) (flt 6)) (2 * n - 6144)"
    using n by (intro fsub_gridv [OF x2 c6]) simp_all
  have y8: "gridv (- 10) (fadd (fmul (flt 2) y) (flt 8)) (2 * k + 8192)"
    using k by (intro fadd_gridv [OF y2 c8]) simp_all
  show "gridv (- 10) (fadd (fsub (fmul (flt 2) x) (flt 6)) y) (2 * n - 6144 + k)"
    using n k by (intro fadd_gridv [OF x6 y]) simp_all
  show "gridv (- 10) (fadd (fadd (fmul (flt 2) y) (flt 8)) x) (2 * k + 8192 + n)"
    using n k by (intro fadd_gridv [OF y8 x]) simp_all
qed

lemma linearize_grid_value:
  assumes "gridv (- 10) x n" and "gridv (- 10) y k"
    and "\<bar>n\<bar> \<le> 2 ^ 24" and "\<bar>k\<bar> \<le> 2 ^ 24"
  shows "is_finite (fadd (fsub (fmul (flt 2) x) (flt 6)) y)"
    and "valof (fadd (fsub (fmul (flt 2) x) (flt 6)) y) = 2 * valof x - 6 + valof y"
    and "is_finite (fadd (fadd (fmul (flt 2) y) (flt 8)) x)"
    and "valof (fadd (fadd (fmul (flt 2) y) (flt 8)) x) = 2 * valof y + 8 + valof x"
  using linearize_grid [OF assms] assms(1,2)
  by (simp_all add: gridv_1024 field_simps)

subsection \<open>Shared facts about the methods\<close>

lemma solve_nonlinear_supplied:
  assumes "params st ''x'' = Some x" and "params st ''y'' = Some y"
  shows "solve_nonlinear up self st =
    (case f_xy up x y of
       Inl err \<Rightarrow> Inl err
     | Inr v \<Rightarrow> Inr (st\<lparr>unknowns := (unknowns st)(''f_xy'' \<mapsto> v)\<rparr>))"
  using assms by (simp add: solve_nonlinear_def)

lemma linearize_supplied:
  assumes "params st ''x'' = Some x" and "params st ''y'' = Some y"
  shows "linearize self st =
    Inr ([(''f_xy'', ''x'') \<mapsto> fadd (fsub (fmul (flt 2) x) (flt 6)) y,
          (''f_xy'', ''y'') \<mapsto> fadd (fadd (fmul (flt 2) y) (flt 8)) x], st)"
  using assms by (simp add: linearize_def)

lemma top_run_eq: "top_run up x y = f_xy up x y"
  by (cases "f_xy up x y") (simp_all add: top_run_def top_set_def solve_nonlinear_def Let_def)

lemma top_linearize_eq:
  "top_linearize x y =
     Inr (fadd (fsub (fmul (flt 2) x) (flt 6)) y, fadd (fadd (fmul (flt 2) y) (flt 8)) x)"
  by (simp add: top_linearize_def top_set_def linearize_def)

lemma eval_f_xy_expr: "eval up (xy_env x y) f_xy_expr = f_xy up x y"
  by (simp add: f_xy_expr_def f_xy_def xy_env_def split: sum.splits)

lemma eval_f_xy_mult_expr: "eval up (xy_env x y) f_xy_mult_expr = Inr (f_xy_mult x y)"
  by (simp add: f_xy_mult_expr_def f_xy_mult_def xy_env_def)



subsection \<open>Results that stay finite\<close>

lemma two_powi_le_cancel: "(2::real) powi i \<le> 2 powi j \<Longrightarrow> i \<le> j"
  by (rule ccontr) (use power_int_strict_increasing [of j i "2::real"] in simp)

lemma bitlen_powi:
  assumes "0 < a"
  shows "(2::real) powi (bitlen a - 1) \<le> of_int a" and "of_int a < (2::real) powi bitlen a"
proof -
  from bitlen_bounds [OF assms]
  have lo: "2 ^ nat (bitlen a - 1) \<le> a" and hi: "a < 2 ^ nat (bitlen a)"
    by simp_all
  have b1: "1 \<le> bitlen a"
    using assms bitlen_eq_zero_iff [of a] bitlen_nonneg [of a] by simp
  have "(2::real) powi (bitlen a - 1) = of_int (2 ^ nat (bitlen a - 1))"
    using b1 by (simp add: two_powi_nat)
  also have "\<dots> \<le> of_int a"
    using lo by (simp only: of_int_le_iff)
  finally show "(2::real) powi (bitlen a - 1) \<le> of_int a" .
  have "of_int a < (of_int (2 ^ nat (bitlen a)) :: real)"
    using hi by (simp only: of_int_less_iff)
  also have "\<dots> = 2 powi bitlen a"
    using b1 by (simp add: two_powi_nat)
  finally show "of_int a < (2::real) powi bitlen a" .
qed

lemma rnd_shape:
  assumes a: "0 < a"
  shows "\<exists>M. rnd mode s a e = finish s M (max (e + bitlen a - 53) (- 1074))
           \<and> 0 \<le> M \<and> M \<le> 2 ^ 53"
proof -
  define q where "q = max (e + bitlen a - 53) (- 1074)"
  define sh where "sh = nat (q - e)"
  have q_ge: "e + bitlen a - 53 \<le> q"
    by (simp add: q_def)
  have r: "rnd mode s a e =
      (if q \<le> e then finish s (a * 2 ^ nat (e - q)) q
       else finish s (if round_up mode (a div 2 ^ sh) (a mod 2 ^ sh) sh
                      then a div 2 ^ sh + 1 else a div 2 ^ sh) q)"
    by (simp only: rnd_def Let_def q_def sh_def)
  have below: "of_int a * (2::real) powi (e - q) < 2 powi 53"
  proof -
    have "of_int a * (2::real) powi (e - q) < 2 powi bitlen a * 2 powi (e - q)"
      using bitlen_powi(2) [OF a] by (simp add: mult_strict_right_mono)
    also have "\<dots> = 2 powi (bitlen a + e - q)"
      by (simp add: power_int_add power_int_diff)
    also have "\<dots> \<le> 2 powi 53"
      using q_ge by (intro power_int_increasing) simp_all
    finally show ?thesis .
  qed
  show ?thesis
  proof (cases "q \<le> e")
    case True
    have eqM: "(of_int (a * 2 ^ nat (e - q)) :: real) = of_int a * 2 powi (e - q)"
      using True by (simp add: two_powi_nat)
    have "(of_int (a * 2 ^ nat (e - q)) :: real) < 2 powi 53"
      unfolding eqM by (rule below)
    also have "(2::real) powi 53 = of_int (2 ^ 53)"
      by simp
    finally have "a * 2 ^ nat (e - q) < 2 ^ 53"
      by (simp only: of_int_less_iff)
    moreover have "0 \<le> a * 2 ^ nat (e - q)"
      using a by simp
    ultimately show ?thesis
      using r True unfolding q_def [symmetric] by auto
  next
    case False
    define M0 where "M0 = a div 2 ^ sh"
    have M0: "0 \<le> M0"
      using a by (simp add: M0_def pos_imp_zdiv_nonneg_iff)
    have "M0 * 2 ^ sh + a mod 2 ^ sh = a"
      unfolding M0_def by (rule div_mult_mod_eq)
    moreover have "0 \<le> a mod (2 ^ sh :: int)"
      by simp
    ultimately have "M0 * 2 ^ sh \<le> a"
      by linarith
    then have "(of_int (M0 * 2 ^ sh) :: real) \<le> of_int a"
      by (simp only: of_int_le_iff)
    then have "(of_int M0 :: real) * 2 ^ sh \<le> of_int a"
      by simp
    then have "(of_int M0 :: real) \<le> of_int a / 2 ^ sh"
      by (simp add: pos_le_divide_eq)
    also have "\<dots> = of_int a * 2 powi (e - q)"
      using False by (simp add: sh_def power_int_def nat_diff_distrib field_simps)
    finally have "(of_int M0 :: real) < of_int (2 ^ 53)"
      using below by simp
    then have M53: "M0 < 2 ^ 53"
      by (simp only: of_int_less_iff)
    from r False have "rnd mode s a e =
        finish s (if round_up mode M0 (a mod 2 ^ sh) sh then M0 + 1 else M0) q"
      by (simp add: M0_def)
    moreover have "0 \<le> (if round_up mode M0 (a mod 2 ^ sh) sh then M0 + 1 else M0)"
      using M0 by simp
    moreover have "(if round_up mode M0 (a mod 2 ^ sh) sh then M0 + 1 else M0) \<le> 2 ^ 53"
      using M53 by simp
    ultimately show ?thesis
      unfolding q_def [symmetric] by blast
  qed
qed

lemma rnd_finite_le:
  assumes a: "0 < a"
    and le: "of_int a * 2 powi e \<le> (2::real) powi t"
    and t: "- 1022 \<le> t" "t \<le> 1022"
  shows "is_finite (rnd mode s a e)" and "\<bar>valof (rnd mode s a e)\<bar> \<le> 2 powi (t + 1)"
proof -
  define q where "q = max (e + bitlen a - 53) (- 1074)"
  from rnd_shape [OF a, of mode s e] obtain M
    where r: "rnd mode s a e = finish s M q" and M: "0 \<le> M" "M \<le> 2 ^ 53"
    unfolding q_def by blast
  have "(2::real) powi (bitlen a - 1 + e) = 2 powi (bitlen a - 1) * 2 powi e"
    by (simp add: power_int_add)
  also have "\<dots> \<le> of_int a * 2 powi e"
    using bitlen_powi(1) [OF a] by (simp add: mult_right_mono)
  also note le
  finally have "bitlen a - 1 + e \<le> t"
    by (rule two_powi_le_cancel)
  then have q: "q \<le> t - 52"
    using t by (simp add: q_def)
  have top: "(2::real) powi (q + 53) \<le> 2 powi (t + 1)"
    using q by (intro power_int_increasing) simp_all
  have p53: "(2::real) powi (q + 53) = 2 ^ 53 * 2 powi q"
    by (simp add: power_int_add)
  show "is_finite (rnd mode s a e)"
    using r q t by (simp add: finish_def)
  show "\<bar>valof (rnd mode s a e)\<bar> \<le> 2 powi (t + 1)"
  proof (cases "M = 2 ^ 53")
    case True
    have "(2::real) powi (q + 1) = 2 * 2 powi q"
      by (simp add: power_int_add)
    then have "\<bar>valof (rnd mode s a e)\<bar> = 2 ^ 53 * 2 powi q"
      using r True q t by (simp add: finish_def abs_mult)
    with top p53 show ?thesis
      by simp
  next
    case False
    have M': "(of_int M :: real) \<le> 2 ^ 53"
    proof -
      have "(of_int M :: real) \<le> of_int (2 ^ 53)"
        using M by (simp only: of_int_le_iff)
      then show ?thesis
        by simp
    qed
    have "\<bar>valof (rnd mode s a e)\<bar> = of_int M * 2 powi q"
      using r False q t M by (simp add: finish_def abs_mult)
    also have "\<dots> \<le> 2 ^ 53 * 2 powi q"
      using M' by (rule mult_right_mono) simp
    also have "\<dots> = 2 powi (q + 53)"
      by (simp only: p53)
    also note top
    finally show ?thesis .
  qed
qed

lemma fadd_exact:
  obtains m e where "of_int m * (2::real) powi e = valof (Finite s1 m1 e1) + valof (Finite s2 m2 e2)"
    and "fadd (Finite s1 m1 e1) (Finite s2 m2 e2)
          = (if m = 0 then zero (s1 \<and> s2) else rnd Nearest (m < 0) \<bar>m\<bar> e)"
proof -
  define e where "e = min e1 e2"
  define m where "m = signed s1 m1 * 2 ^ nat (e1 - e) + signed s2 m2 * 2 ^ nat (e2 - e)"
  have e1: "(2::real) powi e1 = 2 ^ nat (e1 - e) * 2 powi e"
  proof -
    have "(2::real) powi e1 = 2 powi (e1 - e) * 2 powi e"
      by (simp flip: power_int_add)
    then show ?thesis
      by (simp add: two_powi_nat e_def)
  qed
  have e2: "(2::real) powi e2 = 2 ^ nat (e2 - e) * 2 powi e"
  proof -
    have "(2::real) powi e2 = 2 powi (e2 - e) * 2 powi e"
      by (simp flip: power_int_add)
    then show ?thesis
      by (simp add: two_powi_nat e_def)
  qed
  have "of_int m * (2::real) powi e = valof (Finite s1 m1 e1) + valof (Finite s2 m2 e2)"
    unfolding valof_signed m_def by (simp add: e1 e2 algebra_simps)
  moreover have "fadd (Finite s1 m1 e1) (Finite s2 m2 e2)
      = (if m = 0 then zero (s1 \<and> s2) else rnd Nearest (m < 0) \<bar>m\<bar> e)"
    by (simp only: fadd.simps Let_def m_def e_def)
  ultimately show ?thesis
    by (rule that)
qed

lemma fadd_bounded:
  assumes a: "is_finite a" "\<bar>valof a\<bar> \<le> 2 powi t"
    and b: "is_finite b" "\<bar>valof b\<bar> \<le> 2 powi t"
    and t: "- 1023 \<le> t" "t \<le> 1021"
  shows "is_finite (fadd a b)" and "\<bar>valof (fadd a b)\<bar> \<le> 2 powi (t + 2)"
proof -
  from a obtain s1 m1 e1 where A: "a = Finite s1 m1 e1"
    by (cases a) simp_all
  from b obtain s2 m2 e2 where B: "b = Finite s2 m2 e2"
    by (cases b) simp_all
  obtain m e where sum: "of_int m * (2::real) powi e = valof a + valof b"
    and r: "fadd a b = (if m = 0 then zero (s1 \<and> s2) else rnd Nearest (m < 0) \<bar>m\<bar> e)"
    unfolding A B by (rule fadd_exact)
  have "is_finite (fadd a b) \<and> \<bar>valof (fadd a b)\<bar> \<le> 2 powi (t + 2)"
  proof (cases "m = 0")
    case True
    with r show ?thesis
      by (simp add: zero_def)
  next
    case False
    have "of_int \<bar>m\<bar> * (2::real) powi e = \<bar>valof a + valof b\<bar>"
      using sum [symmetric] by (simp add: abs_mult)
    also have "\<dots> \<le> 2 powi t + 2 powi t"
      using a(2) b(2) by linarith
    also have "\<dots> = 2 powi (t + 1)"
      by (simp add: power_int_add)
    finally have le: "of_int \<bar>m\<bar> * (2::real) powi e \<le> 2 powi (t + 1)" .
    have pos: "0 < \<bar>m\<bar>"
      using False by simp
    have fin: "is_finite (rnd Nearest (m < 0) \<bar>m\<bar> e)"
      using t by (intro rnd_finite_le(1) [OF pos le]) simp_all
    have "\<bar>valof (rnd Nearest (m < 0) \<bar>m\<bar> e)\<bar> \<le> 2 powi (t + 1 + 1)"
      using t by (intro rnd_finite_le(2) [OF pos le]) simp_all
    moreover have "t + 1 + 1 = t + 2"
      by simp
    ultimately have "\<bar>valof (rnd Nearest (m < 0) \<bar>m\<bar> e)\<bar> \<le> 2 powi (t + 2)"
      by (simp only:)
    with fin r False show ?thesis
      by simp
  qed
  then show "is_finite (fadd a b)" and "\<bar>valof (fadd a b)\<bar> \<le> 2 powi (t + 2)"
    by simp_all
qed

lemma float_pow_bounded:
  assumes a: "is_finite a" "\<bar>valof a\<bar> \<le> 2 powi t"
    and t: "- 511 \<le> t" "t \<le> 511"
  shows "\<exists>r. float_pow up a = Inr r"
proof -
  from a obtain s m e where A: "a = Finite s m e"
    by (cases a) simp_all
  show ?thesis
  proof (cases "m = 0")
    case True
    then show ?thesis
      unfolding A by simp
  next
    case False
    define z where "z = int m * int m"
    have zpos: "0 < z"
      using False by (simp add: z_def)
    have "(2::real) powi (e + e) = 2 powi e * 2 powi e"
      by (rule power_int_add) simp
    moreover have "2 * e = e + e"
      by simp
    ultimately have sq: "(2::real) powi (2 * e) = 2 powi e * 2 powi e"
      by (simp only:)
    have "(2::real) powi (t + t) = 2 powi t * 2 powi t"
      by (rule power_int_add) simp
    moreover have "2 * t = t + t"
      by simp
    ultimately have sqt: "(2::real) powi (2 * t) = 2 powi t * 2 powi t"
      by (simp only:)
    have "of_int z * (2::real) powi (2 * e) = \<bar>valof a\<bar> * \<bar>valof a\<bar>"
      unfolding A z_def by (simp add: sq abs_mult)
    also have "\<dots> \<le> 2 powi t * 2 powi t"
      using a(2) by (intro mult_mono) simp_all
    finally have le: "of_int z * (2::real) powi (2 * e) \<le> 2 powi (2 * t)"
      by (simp only: sqt)
    have fin: "is_finite (rnd mode False z (2 * e))" for mode
      using t by (intro rnd_finite_le(1) [OF zpos le]) simp_all
    define r where "r = (if rnd (Directed False) False z (2 * e) = rnd (Directed True) False z (2 * e)
        then rnd (Directed False) False z (2 * e)
        else if up (Finite s m e) then rnd (Directed True) False z (2 * e)
        else rnd (Directed False) False z (2 * e))"
    have "is_finite r"
      using fin by (simp add: r_def)
    moreover have "float_pow up a = (case r of Infinity t \<Rightarrow> Inl OverflowError | _ \<Rightarrow> Inr r)"
      unfolding A float_pow.simps Let_def r_def z_def using False by simp
    ultimately show ?thesis
      by (cases r) simp_all
  qed
qed

lemma f_xy_returns:
  assumes x: "is_finite x" "\<bar>valof x\<bar> \<le> 2 ^ 500"
    and y: "is_finite y" "\<bar>valof y\<bar> \<le> 2 ^ 500"
  shows "\<exists>v. f_xy up x y = Inr v"
proof -
  have p: "(2::real) ^ 500 = 2 powi 500"
    by simp
  have c3: "is_finite (fneg (flt 3))" "\<bar>valof (fneg (flt 3))\<bar> \<le> 2 powi 500"
    using fneg_gridv [OF flt_gridv [of 3]] by (simp_all add: gridv_def)
  have c4: "is_finite (flt 4)" "\<bar>valof (flt 4)\<bar> \<le> 2 powi 500"
    using flt_gridv [of 4] by (simp_all add: gridv_def)
  have d1: "is_finite (fsub x (flt 3))" "\<bar>valof (fsub x (flt 3))\<bar> \<le> 2 powi 502"
    using fadd_bounded [OF x(1) x(2) [unfolded p] c3] by (simp_all add: fsub_def)
  have d2: "is_finite (fadd y (flt 4))" "\<bar>valof (fadd y (flt 4))\<bar> \<le> 2 powi 502"
    using fadd_bounded [OF y(1) y(2) [unfolded p] c4] by simp_all
  from float_pow_bounded [OF d1, of up] obtain p1
    where p1: "float_pow up (fsub x (flt 3)) = Inr p1"
    by auto
  from float_pow_bounded [OF d2, of up] obtain p2
    where p2: "float_pow up (fadd y (flt 4)) = Inr p2"
    by auto
  show ?thesis
    by (simp add: f_xy_def p1 p2)
qed


subsection \<open>The objective over the real numbers\<close>










lemma partial_x:
  "((\<lambda>t. (t - 3)\<^sup>2 + t * y + (y + 4)\<^sup>2 - 3) has_field_derivative (2 * x - 6 + y)) (at (x::real))"
  by (auto intro!: derivative_eq_intros simp: algebra_simps)

lemma partial_y:
  "((\<lambda>t. (x - 3)\<^sup>2 + x * t + (t + 4)\<^sup>2 - 3) has_field_derivative (2 * y + 8 + x)) (at (y::real))"
  by (auto intro!: derivative_eq_intros simp: algebra_simps)



subsection \<open>Evaluations\<close>

lemma bitlen_numeral:
  "bitlen (numeral Num.One) = 1"
  "bitlen (numeral (Num.Bit0 k)) = bitlen (numeral k) + 1"
  "bitlen (numeral (Num.Bit1 k)) = bitlen (numeral k) + 1"
  "bitlen 1 = 1"
proof -
  show "bitlen (numeral Num.One) = 1" "bitlen 1 = 1"
    by (simp_all add: compute_bitlen)
  have "bitlen (numeral (Num.Bit0 k)) = bitlen (numeral (Num.Bit0 k) div 2) + 1"
    by (subst compute_bitlen) simp
  then show "bitlen (numeral (Num.Bit0 k)) = bitlen (numeral k) + 1"
    by simp
  have "bitlen (numeral (Num.Bit1 k)) = bitlen (numeral (Num.Bit1 k) div 2) + 1"
    by (subst compute_bitlen) simp
  then show "bitlen (numeral (Num.Bit1 k)) = bitlen (numeral k) + 1"
    by simp
qed

lemmas float_eval = f_xy_def f_xy_mult_def flt_def rnd_def finish_def round_up_def zero_def
  signed_def fsub_def Let_def bitlen_numeral

lemma flt_values:
  "flt 0 = Finite False 0 (- 1074)"
  "flt 2 = Finite False 4503599627370496 (- 51)"
  "flt 3 = Finite False 6755399441055744 (- 51)"
  "flt (- 4) = Finite True 4503599627370496 (- 50)"
  "flt 5 = Finite False 5629499534213120 (- 50)"
  "flt 6 = Finite False 6755399441055744 (- 50)"
  "flt 15 = Finite False 8444249301319680 (- 49)"
  "flt (- 15) = Finite True 8444249301319680 (- 49)"
  "flt 17 = Finite False 4785074604081152 (- 48)"
  "flt 22 = Finite False 6192449487634432 (- 48)"
  "flt 47 = Finite False 6614661952700416 (- 47)"
  "flt 50 = Finite False 7036874417766400 (- 47)"
  "flt (- 50) = Finite True 7036874417766400 (- 47)"
  by (simp_all add: float_eval)

lemma f_xy_mult_literals:
  "f_xy_mult (flt 0) (flt 0) = flt 22"
  "f_xy_mult (flt 3) (flt (- 4)) = flt (- 15)"
  "f_xy_mult (flt 5) (flt 2) = flt 47"
  by (simp_all add: float_eval)

lemma f_xy_literals:
  "f_xy up (flt 0) (flt 0) = Inr (flt 22)"
  "f_xy up (flt 3) (flt (- 4)) = Inr (flt (- 15))"
  "f_xy up (flt 5) (flt 2) = Inr (flt 47)"
proof -
  have g: "gridv (- 10) (flt 0) 0" "gridv (- 10) (flt 3) 3072"
    "gridv (- 10) (flt (- 4)) (- 4096)" "gridv (- 10) (flt 5) 5120" "gridv (- 10) (flt 2) 2048"
    using flt_grid10 [of 0] flt_grid10 [of 3] flt_grid10 [of "- 4"] flt_grid10 [of 5]
      flt_grid10 [of 2]
    by simp_all
  show "f_xy up (flt 0) (flt 0) = Inr (flt 22)"
    using f_xy_grid(1) [OF g(1) g(1), of up] by (simp add: f_xy_mult_literals)
  show "f_xy up (flt 3) (flt (- 4)) = Inr (flt (- 15))"
    using f_xy_grid(1) [OF g(2) g(3), of up] by (simp add: f_xy_mult_literals)
  show "f_xy up (flt 5) (flt 2) = Inr (flt 47)"
    using f_xy_grid(1) [OF g(4) g(5), of up] by (simp add: f_xy_mult_literals)
qed

lemma linearize_literal:
  "fadd (fsub (fmul (flt 2) (flt 5)) (flt 6)) (flt 2) = flt 6"
  "fadd (fadd (fmul (flt 2) (flt 2)) (flt 8)) (flt 5) = flt 17"
  "fadd (fsub (fmul (flt 2) (flt 3)) (flt 6)) (flt (- 4)) = flt (- 4)"
  "fadd (fadd (fmul (flt 2) (flt (- 4))) (flt 8)) (flt 3) = flt 3"
  by (simp_all add: float_eval)

text \<open>
  The input \<open>(0, 2\<^sup>5\<^sup>1\<^sup>2)\<close>, where the second square overflows whatever the rounding
  of pow.
\<close>

lemma overflow_input:
  "f_xy up (flt 0) (Finite False 4503599627370496 460) = Inl OverflowError"
  "f_xy_mult (flt 0) (Finite False 4503599627370496 460) = Infinity False"
  by (simp_all add: float_eval)

text \<open>
  Inputs with exact squares, where the sums round: the results do not depend on the
  rounding of pow.
\<close>

lemma rounding_inputs:
  "f_xy up (Finite False 6755399443152896 (- 51)) (flt (- 4))
     = Inr (Finite True 8444249303416832 (- 49))"
  "f_xy up (Finite False 7505999401320448 (- 50))
       (Finite True 8256599294476288 (- 50))
     = Inr (Finite True 7693649363424599 (- 48))"
  "f_xy up (Finite False 8068949354741760 (- 50))
       (Finite True 8819549247897600 (- 50))
     = Inr (Finite True 7623280619246935 (- 48))"
  "fsub (Finite False 8068949354741760 (- 50)) (Finite True 8819549247897600 (- 50)) = flt 15"
  by (simp_all add: float_eval)

lemma linearize_inputs:
  "fadd (fsub (fmul (flt 2) (Finite False 4503599627370496 971)) (flt 6)) (flt 0)
     = Infinity False"
  "fadd (fsub (fmul (flt 2) (Finite False 4503599627370496 1)) (flt 6)) (flt 1)
     = Finite False 9007199254740990 1"
  "fadd (fadd (fmul (flt 2) (flt 0)) (flt 8)) (Finite False 4503599627370496 971)
     = Finite False 4503599627370496 971"
  "fadd (fadd (fmul (flt 2) (flt 1)) (flt 8)) (Finite False 4503599627370496 1)
     = Finite False 4503599627370501 1"
  by (simp_all add: float_eval)


lemma float_pow_error: "float_pow up a = Inl err \<Longrightarrow> err = OverflowError"
  by (cases a) (auto simp add: Let_def split: if_splits double.splits)

lemma f_xy_error: "f_xy up x y = Inl err \<Longrightarrow> err = OverflowError"
  by (auto simp add: f_xy_def Let_def split: sum.splits dest: float_pow_error)

subsection \<open>The objective value\<close>

text \<open>
  Claim C1, as the specification states it: for every pair of inputs solve_nonlinear
  returns exactly (x - 3)^2 + x y + (y + 4)^2 - 3. At the finite input (0, 2^512) the
  second square overflows and the method raises OverflowError without writing; at
  (3 + 2^-30, -4) both squares are exact and the sums round, so the value written is
  not the exact one.
\<close>

theorem solve_nonlinear_overflows_and_rounds:
  "solve_nonlinear correctly_rounded Paraboloid_init
     \<lparr>params = [''x'' \<mapsto> flt 0, ''y'' \<mapsto> Finite False 4503599627370496 460],
      unknowns = [''f_xy'' \<mapsto> flt 0], resids = [''f_xy'' \<mapsto> flt 0]\<rparr>
     = Inl OverflowError
   \<and> solve_nonlinear correctly_rounded Paraboloid_init
     \<lparr>params = [''x'' \<mapsto> Finite False 6755399443152896 (- 51), ''y'' \<mapsto> flt (- 4)],
      unknowns = [''f_xy'' \<mapsto> flt 0], resids = [''f_xy'' \<mapsto> flt 0]\<rparr>
     = Inr \<lparr>params = [''x'' \<mapsto> Finite False 6755399443152896 (- 51), ''y'' \<mapsto> flt (- 4)],
            unknowns = [''f_xy'' \<mapsto> Finite True 8444249303416832 (- 49)],
            resids = [''f_xy'' \<mapsto> flt 0]\<rparr>
   \<and> valof (Finite True 8444249303416832 (- 49))
       \<noteq> (valof (Finite False 6755399443152896 (- 51)) - 3)\<^sup>2
           + valof (Finite False 6755399443152896 (- 51)) * valof (flt (- 4))
           + (valof (flt (- 4)) + 4)\<^sup>2 - 3"
proof (intro conjI)
  show "solve_nonlinear correctly_rounded Paraboloid_init
     \<lparr>params = [''x'' \<mapsto> flt 0, ''y'' \<mapsto> Finite False 4503599627370496 460],
      unknowns = [''f_xy'' \<mapsto> flt 0], resids = [''f_xy'' \<mapsto> flt 0]\<rparr>
     = Inl OverflowError"
    by (simp add: solve_nonlinear_def overflow_input)
  show "solve_nonlinear correctly_rounded Paraboloid_init
     \<lparr>params = [''x'' \<mapsto> Finite False 6755399443152896 (- 51), ''y'' \<mapsto> flt (- 4)],
      unknowns = [''f_xy'' \<mapsto> flt 0], resids = [''f_xy'' \<mapsto> flt 0]\<rparr>
     = Inr \<lparr>params = [''x'' \<mapsto> Finite False 6755399443152896 (- 51), ''y'' \<mapsto> flt (- 4)],
            unknowns = [''f_xy'' \<mapsto> Finite True 8444249303416832 (- 49)],
            resids = [''f_xy'' \<mapsto> flt 0]\<rparr>"
    by (simp add: solve_nonlinear_def rounding_inputs)
  show "valof (Finite True 8444249303416832 (- 49))
       \<noteq> (valof (Finite False 6755399443152896 (- 51)) - 3)\<^sup>2
           + valof (Finite False 6755399443152896 (- 51)) * valof (flt (- 4))
           + (valof (flt (- 4)) + 4)\<^sup>2 - 3"
    by (simp add: flt_values power2_eq_square power_int_minus_divide)
qed

text \<open>
  Claim C1, amended: for every pair of inputs that are multiples of 1/1024 of magnitude
  at most 16384, solve_nonlinear writes a finite double whose value is exactly
  (x - 3)^2 + x y + (y + 4)^2 - 3, whatever the C library's rounding of pow; in
  particular it writes 22 at (0, 0), -15 at (3, -4) and 47 at (5, 2).
\<close>

theorem solve_nonlinear_value:
  "(params st ''x'' = Some x \<and> params st ''y'' = Some y
      \<and> is_finite x \<and> is_finite y
      \<and> valof x = of_int n / 1024 \<and> valof y = of_int k / 1024
      \<and> \<bar>n\<bar> \<le> 2 ^ 24 \<and> \<bar>k\<bar> \<le> 2 ^ 24 \<longrightarrow>
      (\<exists>v. solve_nonlinear up self st = Inr (st\<lparr>unknowns := (unknowns st)(''f_xy'' \<mapsto> v)\<rparr>)
         \<and> is_finite v
         \<and> valof v = (valof x - 3)\<^sup>2 + valof x * valof y + (valof y + 4)\<^sup>2 - 3))
   \<and> (params st ''x'' = Some (flt 0) \<and> params st ''y'' = Some (flt 0) \<longrightarrow>
      solve_nonlinear up self st = Inr (st\<lparr>unknowns := (unknowns st)(''f_xy'' \<mapsto> flt 22)\<rparr>))
   \<and> (params st ''x'' = Some (flt 3) \<and> params st ''y'' = Some (flt (- 4)) \<longrightarrow>
      solve_nonlinear up self st
        = Inr (st\<lparr>unknowns := (unknowns st)(''f_xy'' \<mapsto> flt (- 15))\<rparr>))
   \<and> (params st ''x'' = Some (flt 5) \<and> params st ''y'' = Some (flt 2) \<longrightarrow>
      solve_nonlinear up self st = Inr (st\<lparr>unknowns := (unknowns st)(''f_xy'' \<mapsto> flt 47)\<rparr>))
   \<and> top_run up (flt 0) (flt 0) = Inr (flt 22)
   \<and> top_run up (flt 3) (flt (- 4)) = Inr (flt (- 15))
   \<and> top_run up (flt 5) (flt 2) = Inr (flt 47)
   \<and> valof (flt 0) = 0 \<and> valof (flt 3) = 3 \<and> valof (flt (- 4)) = - 4
   \<and> valof (flt 5) = 5 \<and> valof (flt 2) = 2
   \<and> valof (flt 22) = 22 \<and> valof (flt (- 15)) = - 15 \<and> valof (flt 47) = 47"
proof (intro conjI impI)
  assume h: "params st ''x'' = Some x \<and> params st ''y'' = Some y
      \<and> is_finite x \<and> is_finite y
      \<and> valof x = of_int n / 1024 \<and> valof y = of_int k / 1024
      \<and> \<bar>n\<bar> \<le> 2 ^ 24 \<and> \<bar>k\<bar> \<le> 2 ^ 24"
  then have gx: "gridv (- 10) x n" and gy: "gridv (- 10) y k"
    and n: "\<bar>n\<bar> \<le> 2 ^ 24" and k: "\<bar>k\<bar> \<le> 2 ^ 24"
    by (simp_all add: gridv_1024)
  from h have "solve_nonlinear up self st
      = Inr (st\<lparr>unknowns := (unknowns st)(''f_xy'' \<mapsto> f_xy_mult x y)\<rparr>)"
    by (simp add: solve_nonlinear_supplied f_xy_grid(1) [OF gx gy n k])
  with f_xy_grid_value [OF gx gy n k]
  show "\<exists>v. solve_nonlinear up self st = Inr (st\<lparr>unknowns := (unknowns st)(''f_xy'' \<mapsto> v)\<rparr>)
         \<and> is_finite v
         \<and> valof v = (valof x - 3)\<^sup>2 + valof x * valof y + (valof y + 4)\<^sup>2 - 3"
    by blast
qed (simp_all add: solve_nonlinear_supplied f_xy_literals top_run_eq flt_val)

theorem solve_nonlinear_value_witness:
  "solve_nonlinear correctly_rounded Paraboloid_init
     \<lparr>params = [''x'' \<mapsto> flt 3, ''y'' \<mapsto> flt (- 4)], unknowns = [''f_xy'' \<mapsto> flt 0],
      resids = [''f_xy'' \<mapsto> flt 0]\<rparr>
   = Inr \<lparr>params = [''x'' \<mapsto> flt 3, ''y'' \<mapsto> flt (- 4)], unknowns = [''f_xy'' \<mapsto> flt (- 15)],
          resids = [''f_xy'' \<mapsto> flt 0]\<rparr>
   \<and> is_finite (flt (- 15))
   \<and> valof (flt (- 15)) = (valof (flt 3) - 3)\<^sup>2 + valof (flt 3) * valof (flt (- 4))
       + (valof (flt (- 4)) + 4)\<^sup>2 - 3"
  using solve_nonlinear_value
    [where st = "\<lparr>params = [''x'' \<mapsto> flt 3, ''y'' \<mapsto> flt (- 4)],
                  unknowns = [''f_xy'' \<mapsto> flt 0], resids = [''f_xy'' \<mapsto> flt 0]\<rparr>"
       and x = "flt 3" and y = "flt (- 4)" and n = 3072 and k = "- 4096"
       and up = correctly_rounded and self = Paraboloid_init]
  by (simp add: flt_val)

subsection \<open>The derivatives\<close>

text \<open>
  Claim C2, as the specification states it: for every pair of inputs linearize returns
  2x - 6 + y and 2y + 8 + x exactly. At (2^1023, 0) the product 2.0*x overflows and the
  first entry is the infinity; at (2^53, 1) the first entry is 2^54 - 6 where the exact
  value is 2^54 - 5.
\<close>

theorem linearize_overflows_and_rounds:
  "top_linearize (Finite False 4503599627370496 971) (flt 0)
     = Inr (Infinity False, Finite False 4503599627370496 971)
   \<and> \<not> is_finite (Infinity False)
   \<and> top_linearize (Finite False 4503599627370496 1) (flt 1)
     = Inr (Finite False 9007199254740990 1, Finite False 4503599627370501 1)
   \<and> valof (Finite False 9007199254740990 1)
       \<noteq> 2 * valof (Finite False 4503599627370496 1) - 6 + valof (flt 1)"
  by (simp add: top_linearize_eq linearize_inputs flt_val)

text \<open>
  Claim C2, amended: for every pair of inputs that are multiples of 1/1024 of magnitude
  at most 16384, linearize returns finite doubles whose values are exactly 2x - 6 + y
  for J['f_xy','x'] and 2y + 8 + x for J['f_xy','y'], and these are the partial
  derivatives at (x, y) of the objective expression (x - 3)^2 + x y + (y + 4)^2 - 3:
  the closed form, not a difference quotient.
\<close>

theorem linearize_value:
  "(params st ''x'' = Some x \<and> params st ''y'' = Some y
      \<and> is_finite x \<and> is_finite y
      \<and> valof x = of_int n / 1024 \<and> valof y = of_int k / 1024
      \<and> \<bar>n\<bar> \<le> 2 ^ 24 \<and> \<bar>k\<bar> \<le> 2 ^ 24 \<longrightarrow>
      (\<exists>gx gy. linearize self st
           = Inr ([(''f_xy'', ''x'') \<mapsto> gx, (''f_xy'', ''y'') \<mapsto> gy], st)
         \<and> top_linearize x y = Inr (gx, gy)
         \<and> is_finite gx \<and> is_finite gy
         \<and> valof gx = 2 * valof x - 6 + valof y
         \<and> valof gy = 2 * valof y + 8 + valof x
         \<and> ((\<lambda>t. (t - 3)\<^sup>2 + t * valof y + (valof y + 4)\<^sup>2 - 3)
              has_field_derivative valof gx) (at (valof x))
         \<and> ((\<lambda>t. (valof x - 3)\<^sup>2 + valof x * t + (t + 4)\<^sup>2 - 3)
              has_field_derivative valof gy) (at (valof y))))
   \<and> top_linearize (flt 5) (flt 2) = Inr (flt 6, flt 17)
   \<and> valof (flt 6) = 6 \<and> valof (flt 17) = 17"
proof (intro conjI impI)
  assume h: "params st ''x'' = Some x \<and> params st ''y'' = Some y
      \<and> is_finite x \<and> is_finite y
      \<and> valof x = of_int n / 1024 \<and> valof y = of_int k / 1024
      \<and> \<bar>n\<bar> \<le> 2 ^ 24 \<and> \<bar>k\<bar> \<le> 2 ^ 24"
  then have gx: "gridv (- 10) x n" and gy: "gridv (- 10) y k"
    and n: "\<bar>n\<bar> \<le> 2 ^ 24" and k: "\<bar>k\<bar> \<le> 2 ^ 24"
    by (simp_all add: gridv_1024)
  define dx where "dx = fadd (fsub (fmul (flt 2) x) (flt 6)) y"
  define dy where "dy = fadd (fadd (fmul (flt 2) y) (flt 8)) x"
  from linearize_grid_value [OF gx gy n k]
  have v: "is_finite dx" "valof dx = 2 * valof x - 6 + valof y"
    "is_finite dy" "valof dy = 2 * valof y + 8 + valof x"
    by (simp_all add: dx_def dy_def)
  from h have l: "linearize self st
      = Inr ([(''f_xy'', ''x'') \<mapsto> dx, (''f_xy'', ''y'') \<mapsto> dy], st)"
    by (simp add: linearize_supplied dx_def dy_def)
  have t: "top_linearize x y = Inr (dx, dy)"
    by (simp add: top_linearize_eq dx_def dy_def)
  have px: "((\<lambda>t. (t - 3)\<^sup>2 + t * valof y + (valof y + 4)\<^sup>2 - 3)
              has_field_derivative valof dx) (at (valof x))"
    unfolding v by (rule partial_x)
  have py: "((\<lambda>t. (valof x - 3)\<^sup>2 + valof x * t + (t + 4)\<^sup>2 - 3)
              has_field_derivative valof dy) (at (valof y))"
    unfolding v by (rule partial_y)
  from l t v px py
  show "\<exists>gx gy. linearize self st
           = Inr ([(''f_xy'', ''x'') \<mapsto> gx, (''f_xy'', ''y'') \<mapsto> gy], st)
         \<and> top_linearize x y = Inr (gx, gy)
         \<and> is_finite gx \<and> is_finite gy
         \<and> valof gx = 2 * valof x - 6 + valof y
         \<and> valof gy = 2 * valof y + 8 + valof x
         \<and> ((\<lambda>t. (t - 3)\<^sup>2 + t * valof y + (valof y + 4)\<^sup>2 - 3)
              has_field_derivative valof gx) (at (valof x))
         \<and> ((\<lambda>t. (valof x - 3)\<^sup>2 + valof x * t + (t + 4)\<^sup>2 - 3)
              has_field_derivative valof gy) (at (valof y))"
    by blast
qed (simp_all add: top_linearize_eq linearize_literal flt_val)

theorem linearize_value_witness:
  "linearize Paraboloid_init
     \<lparr>params = [''x'' \<mapsto> flt 3, ''y'' \<mapsto> flt (- 4)], unknowns = [''f_xy'' \<mapsto> flt (- 15)],
      resids = [''f_xy'' \<mapsto> flt 0]\<rparr>
   = Inr ([(''f_xy'', ''x'') \<mapsto> flt (- 4), (''f_xy'', ''y'') \<mapsto> flt 3],
          \<lparr>params = [''x'' \<mapsto> flt 3, ''y'' \<mapsto> flt (- 4)], unknowns = [''f_xy'' \<mapsto> flt (- 15)],
            resids = [''f_xy'' \<mapsto> flt 0]\<rparr>)
   \<and> valof (flt (- 4)) = 2 * valof (flt 3) - 6 + valof (flt (- 4))
   \<and> valof (flt 3) = 2 * valof (flt (- 4)) + 8 + valof (flt 3)"
  using linearize_value
    [where st = "\<lparr>params = [''x'' \<mapsto> flt 3, ''y'' \<mapsto> flt (- 4)],
                  unknowns = [''f_xy'' \<mapsto> flt (- 15)], resids = [''f_xy'' \<mapsto> flt 0]\<rparr>"
       and x = "flt 3" and y = "flt (- 4)" and n = 3072 and k = "- 4096"
       and self = Paraboloid_init]
  by (simp add: flt_val linearize_def linearize_literal)

subsection \<open>The minima\<close>







subsection \<open>Analytic against numerical derivatives\<close>




subsection \<open>Determinism, totality and frame\<close>

text \<open>
  Claim C6: both evaluators are functions of (x, y) alone. Two calls whose params agree
  on 'x' and 'y' write the same f_xy and return the same Jacobian (or raise the same
  error), whatever the component object, the other params, and the earlier contents of
  unknowns and resids are; and a second evaluation after a first one changes nothing.
  Equal doubles are the same sign, significand and exponent.
\<close>

theorem evaluators_depend_on_inputs_only:
  "(params st1 ''x'' = params st2 ''x'' \<and> params st1 ''y'' = params st2 ''y'' \<longrightarrow>
      map_sum id (\<lambda>s. unknowns s ''f_xy'') (solve_nonlinear up self1 st1)
        = map_sum id (\<lambda>s. unknowns s ''f_xy'') (solve_nonlinear up self2 st2)
      \<and> map_sum id fst (linearize self1 st1) = map_sum id fst (linearize self2 st2))
   \<and> (solve_nonlinear up self st = Inr st' \<longrightarrow>
        solve_nonlinear up self st' = Inr st'
        \<and> map_sum id fst (linearize self st') = map_sum id fst (linearize self st))"
  by (auto simp add: solve_nonlinear_def linearize_def split: option.splits sum.splits)

theorem evaluators_depend_on_inputs_only_witness:
  "map_sum id (\<lambda>s. unknowns s ''f_xy'')
     (solve_nonlinear correctly_rounded Paraboloid_init
        \<lparr>params = [''x'' \<mapsto> flt 5, ''y'' \<mapsto> flt 2], unknowns = [''f_xy'' \<mapsto> flt 0],
          resids = Map.empty\<rparr>)
   = Inr (Some (flt 47))
   \<and> map_sum id (\<lambda>s. unknowns s ''f_xy'')
     (solve_nonlinear correctly_rounded Component_init
        \<lparr>params = [''x'' \<mapsto> flt 5, ''y'' \<mapsto> flt 2, ''z'' \<mapsto> flt 1],
          unknowns = [''f_xy'' \<mapsto> flt 17], resids = [''f_xy'' \<mapsto> flt 6]\<rparr>)
   = Inr (Some (flt 47))
   \<and> map_sum id fst
     (linearize Paraboloid_init
        \<lparr>params = [''x'' \<mapsto> flt 5, ''y'' \<mapsto> flt 2], unknowns = [''f_xy'' \<mapsto> flt 0],
          resids = Map.empty\<rparr>)
   = map_sum id fst
     (linearize Component_init
        \<lparr>params = [''x'' \<mapsto> flt 5, ''y'' \<mapsto> flt 2, ''z'' \<mapsto> flt 1],
          unknowns = [''f_xy'' \<mapsto> flt 17], resids = [''f_xy'' \<mapsto> flt 6]\<rparr>)
   \<and> solve_nonlinear correctly_rounded Paraboloid_init
        \<lparr>params = [''x'' \<mapsto> flt 5, ''y'' \<mapsto> flt 2], unknowns = [''f_xy'' \<mapsto> flt 47],
          resids = Map.empty\<rparr>
   = Inr \<lparr>params = [''x'' \<mapsto> flt 5, ''y'' \<mapsto> flt 2], unknowns = [''f_xy'' \<mapsto> flt 47],
          resids = Map.empty\<rparr>"
  using evaluators_depend_on_inputs_only
    [where ?st1.0 = "\<lparr>params = [''x'' \<mapsto> flt 5, ''y'' \<mapsto> flt 2],
                      unknowns = [''f_xy'' \<mapsto> flt 0], resids = Map.empty\<rparr>"
       and ?st2.0 = "\<lparr>params = [''x'' \<mapsto> flt 5, ''y'' \<mapsto> flt 2, ''z'' \<mapsto> flt 1],
                      unknowns = [''f_xy'' \<mapsto> flt 17], resids = [''f_xy'' \<mapsto> flt 6]\<rparr>"
       and ?self1.0 = Paraboloid_init and ?self2.0 = Component_init
       and st = "\<lparr>params = [''x'' \<mapsto> flt 5, ''y'' \<mapsto> flt 2],
                      unknowns = [''f_xy'' \<mapsto> flt 0], resids = Map.empty\<rparr>"
       and st' = "\<lparr>params = [''x'' \<mapsto> flt 5, ''y'' \<mapsto> flt 2],
                      unknowns = [''f_xy'' \<mapsto> flt 47], resids = Map.empty\<rparr>"
       and self = Paraboloid_init and up = correctly_rounded]
  by (simp add: solve_nonlinear_def f_xy_literals)

text \<open>
  Claim C7, as the specification states it: for every pair of finite inputs the
  objective evaluator returns and cannot raise. Both 0 and 2^512 are finite, and at
  (0, 2^512) solve_nonlinear raises OverflowError.
\<close>

theorem solve_nonlinear_raises_on_finite_input:
  "is_finite (flt 0) \<and> is_finite (Finite False 4503599627370496 460)
   \<and> valof (Finite False 4503599627370496 460) = 2 ^ 512
   \<and> solve_nonlinear correctly_rounded Paraboloid_init
     \<lparr>params = [''x'' \<mapsto> flt 0, ''y'' \<mapsto> Finite False 4503599627370496 460],
      unknowns = [''f_xy'' \<mapsto> flt 0], resids = [''f_xy'' \<mapsto> flt 0]\<rparr>
     = Inl OverflowError"
  by (simp add: solve_nonlinear_def overflow_input flt_val)

text \<open>
  Claim C7, amended: linearize returns for every pair of supplied inputs, and its only
  error branch is the read of a missing input. solve_nonlinear returns for every
  supplied pair of finite inputs of magnitude at most 2^500, whatever the C library's
  rounding of pow; its only error branches are the read of a missing input and the
  OverflowError of a square that overflows.
\<close>

theorem evaluators_total:
  "(params st ''x'' = Some x \<and> params st ''y'' = Some y
      \<and> is_finite x \<and> is_finite y \<and> \<bar>valof x\<bar> \<le> 2 ^ 500 \<and> \<bar>valof y\<bar> \<le> 2 ^ 500 \<longrightarrow>
      (\<exists>v. solve_nonlinear up self st = Inr (st\<lparr>unknowns := (unknowns st)(''f_xy'' \<mapsto> v)\<rparr>)))
   \<and> (params st ''x'' = Some x \<and> params st ''y'' = Some y \<longrightarrow>
        (\<exists>J. linearize self st = Inr (J, st)))
   \<and> (solve_nonlinear up self st = Inl err \<longrightarrow>
        err = KeyError ''x'' \<or> err = KeyError ''y'' \<or> err = OverflowError)
   \<and> (\<exists>e. linearize self st = Inl e) = (params st ''x'' = None \<or> params st ''y'' = None)"
proof (intro conjI impI)
  assume h: "params st ''x'' = Some x \<and> params st ''y'' = Some y
      \<and> is_finite x \<and> is_finite y \<and> \<bar>valof x\<bar> \<le> 2 ^ 500 \<and> \<bar>valof y\<bar> \<le> 2 ^ 500"
  then obtain v where "f_xy up x y = Inr v"
    using f_xy_returns [of x y up] by blast
  with h have "solve_nonlinear up self st
      = Inr (st\<lparr>unknowns := (unknowns st)(''f_xy'' \<mapsto> v)\<rparr>)"
    by (simp add: solve_nonlinear_supplied)
  then show "\<exists>v. solve_nonlinear up self st
      = Inr (st\<lparr>unknowns := (unknowns st)(''f_xy'' \<mapsto> v)\<rparr>)"
    by blast
next
  assume "params st ''x'' = Some x \<and> params st ''y'' = Some y"
  then show "\<exists>J. linearize self st = Inr (J, st)"
    by (simp add: linearize_supplied)
next
  assume "solve_nonlinear up self st = Inl err"
  then show "err = KeyError ''x'' \<or> err = KeyError ''y'' \<or> err = OverflowError"
    by (auto simp add: solve_nonlinear_def split: option.splits sum.splits dest: f_xy_error)
next
  show "(\<exists>e. linearize self st = Inl e) = (params st ''x'' = None \<or> params st ''y'' = None)"
    by (auto simp add: linearize_def split: option.splits)
qed

theorem evaluators_total_witness:
  "(\<exists>v. solve_nonlinear correctly_rounded Paraboloid_init
       \<lparr>params = [''x'' \<mapsto> flt 5, ''y'' \<mapsto> flt 2], unknowns = [''f_xy'' \<mapsto> flt 0],
         resids = Map.empty\<rparr>
       = Inr \<lparr>params = [''x'' \<mapsto> flt 5, ''y'' \<mapsto> flt 2], unknowns = [''f_xy'' \<mapsto> v],
              resids = Map.empty\<rparr>)
   \<and> (\<exists>J. linearize Paraboloid_init
       \<lparr>params = [''x'' \<mapsto> flt 5, ''y'' \<mapsto> flt 2], unknowns = [''f_xy'' \<mapsto> flt 0],
         resids = Map.empty\<rparr>
       = Inr (J, \<lparr>params = [''x'' \<mapsto> flt 5, ''y'' \<mapsto> flt 2], unknowns = [''f_xy'' \<mapsto> flt 0],
                  resids = Map.empty\<rparr>))"
  using evaluators_total
    [where st = "\<lparr>params = [''x'' \<mapsto> flt 5, ''y'' \<mapsto> flt 2], unknowns = [''f_xy'' \<mapsto> flt 0],
                  resids = Map.empty\<rparr>"
       and x = "flt 5" and y = "flt 2" and self = Paraboloid_init and up = correctly_rounded]
  by (simp add: flt_val)

text \<open>
  Claim C10: solve_nonlinear writes the entry 'f_xy' of unknowns and nothing else:
  params, resids and every other entry of unknowns are as before. linearize leaves its
  three arguments as they were, and the dictionary it returns has exactly the keys
  ('f_xy', 'x') and ('f_xy', 'y').
\<close>

theorem evaluators_frame:
  "(solve_nonlinear up self st = Inr st' \<longrightarrow>
      (\<exists>v. st' = st\<lparr>unknowns := (unknowns st)(''f_xy'' \<mapsto> v)\<rparr>)
      \<and> params st' = params st \<and> resids st' = resids st
      \<and> (\<forall>k. k \<noteq> ''f_xy'' \<longrightarrow> unknowns st' k = unknowns st k))
   \<and> (linearize self st = Inr (J, stl) \<longrightarrow>
        stl = st \<and> dom J = {(''f_xy'', ''x''), (''f_xy'', ''y'')})"
proof (intro conjI)
  show "solve_nonlinear up self st = Inr st' \<longrightarrow>
      (\<exists>v. st' = st\<lparr>unknowns := (unknowns st)(''f_xy'' \<mapsto> v)\<rparr>)
      \<and> params st' = params st \<and> resids st' = resids st
      \<and> (\<forall>k. k \<noteq> ''f_xy'' \<longrightarrow> unknowns st' k = unknowns st k)"
    by (auto simp add: solve_nonlinear_def split: option.splits sum.splits)
  show "linearize self st = Inr (J, stl) \<longrightarrow>
        stl = st \<and> dom J = {(''f_xy'', ''x''), (''f_xy'', ''y'')}"
  proof
    assume r: "linearize self st = Inr (J, stl)"
    then obtain x y where xy: "params st ''x'' = Some x" "params st ''y'' = Some y"
      by (auto simp add: linearize_def split: option.splits)
    from r linearize_supplied [OF xy, of self]
    have "stl = st"
      and "J = [(''f_xy'', ''x'') \<mapsto> fadd (fsub (fmul (flt 2) x) (flt 6)) y,
                (''f_xy'', ''y'') \<mapsto> fadd (fadd (fmul (flt 2) y) (flt 8)) x]"
      by simp_all
    then show "stl = st \<and> dom J = {(''f_xy'', ''x''), (''f_xy'', ''y'')}"
      by (simp add: insert_commute)
  qed
qed

theorem evaluators_frame_witness:
  "solve_nonlinear correctly_rounded Paraboloid_init
     \<lparr>params = [''x'' \<mapsto> flt 5, ''y'' \<mapsto> flt 2],
      unknowns = [''f_xy'' \<mapsto> flt 0, ''other'' \<mapsto> flt 1], resids = [''f_xy'' \<mapsto> flt 3]\<rparr>
   = Inr \<lparr>params = [''x'' \<mapsto> flt 5, ''y'' \<mapsto> flt 2],
          unknowns = [''f_xy'' \<mapsto> flt 47, ''other'' \<mapsto> flt 1], resids = [''f_xy'' \<mapsto> flt 3]\<rparr>
   \<and> linearize Paraboloid_init
     \<lparr>params = [''x'' \<mapsto> flt 5, ''y'' \<mapsto> flt 2],
      unknowns = [''f_xy'' \<mapsto> flt 0, ''other'' \<mapsto> flt 1], resids = [''f_xy'' \<mapsto> flt 3]\<rparr>
   = Inr ([(''f_xy'', ''x'') \<mapsto> flt 6, (''f_xy'', ''y'') \<mapsto> flt 17],
       \<lparr>params = [''x'' \<mapsto> flt 5, ''y'' \<mapsto> flt 2],
        unknowns = [''f_xy'' \<mapsto> flt 0, ''other'' \<mapsto> flt 1], resids = [''f_xy'' \<mapsto> flt 3]\<rparr>)
   \<and> dom [(''f_xy'', ''x'') \<mapsto> flt 6, (''f_xy'', ''y'') \<mapsto> flt 17]
       = {(''f_xy'', ''x''), (''f_xy'', ''y'')}"
  using evaluators_frame
    [where st = "\<lparr>params = [''x'' \<mapsto> flt 5, ''y'' \<mapsto> flt 2],
                  unknowns = [''f_xy'' \<mapsto> flt 0, ''other'' \<mapsto> flt 1],
                  resids = [''f_xy'' \<mapsto> flt 3]\<rparr>"
       and st' = "\<lparr>params = [''x'' \<mapsto> flt 5, ''y'' \<mapsto> flt 2],
                  unknowns = [''f_xy'' \<mapsto> flt 47, ''other'' \<mapsto> flt 1],
                  resids = [''f_xy'' \<mapsto> flt 3]\<rparr>"
       and stl = "\<lparr>params = [''x'' \<mapsto> flt 5, ''y'' \<mapsto> flt 2],
                  unknowns = [''f_xy'' \<mapsto> flt 0, ''other'' \<mapsto> flt 1],
                  resids = [''f_xy'' \<mapsto> flt 3]\<rparr>"
       and J = "[(''f_xy'', ''x'') \<mapsto> flt 6, (''f_xy'', ''y'') \<mapsto> flt 17]"
       and self = Paraboloid_init and up = correctly_rounded]
  by (simp add: solve_nonlinear_def linearize_def f_xy_literals linearize_literal fun_upd_twist)

subsection \<open>Defaults\<close>

text \<open>
  Claim C9: the constructor declares the params 'x' and 'y' with the value 0.0 and the
  output 'f_xy' with shape 1, a scalar initialised to 0.0; with no input supplied the
  params vector holds these defaults, and solve_nonlinear then sets f_xy to 22.
\<close>

theorem default_evaluation:
  "comp_params Paraboloid_init ''x'' = Some (flt 0)
   \<and> comp_params Paraboloid_init ''y'' = Some (flt 0)
   \<and> comp_outputs Paraboloid_init ''f_xy'' = Some (Scalar (flt 0))
   \<and> top_setup Paraboloid_init
       = \<lparr>params = [''x'' \<mapsto> flt 0, ''y'' \<mapsto> flt 0], unknowns = [''f_xy'' \<mapsto> flt 0],
          resids = [''f_xy'' \<mapsto> flt 0]\<rparr>
   \<and> solve_nonlinear up Paraboloid_init (top_setup Paraboloid_init)
       = Inr ((top_setup Paraboloid_init)\<lparr>unknowns := [''f_xy'' \<mapsto> flt 22]\<rparr>)
   \<and> flt 0 = Finite False 0 (- 1074) \<and> valof (flt 0) = 0 \<and> valof (flt 22) = 22"
proof -
  have s: "top_setup Paraboloid_init
       = \<lparr>params = [''x'' \<mapsto> flt 0, ''y'' \<mapsto> flt 0], unknowns = [''f_xy'' \<mapsto> flt 0],
          resids = [''f_xy'' \<mapsto> flt 0]\<rparr>"
    by (auto simp add: Paraboloid_init_def add_output_def add_param_def Component_init_def
        top_setup_def scalars_def fun_eq_iff)
  have "solve_nonlinear up Paraboloid_init (top_setup Paraboloid_init)
       = Inr ((top_setup Paraboloid_init)\<lparr>unknowns := [''f_xy'' \<mapsto> flt 22]\<rparr>)"
    unfolding s by (simp add: solve_nonlinear_def f_xy_literals)
  with s show ?thesis
    by (simp add: Paraboloid_init_def add_output_def add_param_def Component_init_def
        flt_val flt_values(1))
qed

subsection \<open>Powers and products\<close>

text \<open>
  Claim C8, as the specification states it: each square of the objective is written as
  a product of the base with itself and not as a power, so that the evaluator computes
  what the multiplication form computes. The expression of the source has two power
  operators, and at (0, 2^512) the evaluator raises OverflowError where the
  multiplication form writes the infinity.
\<close>

theorem f_xy_expr_has_powers:
  "\<not> pow_count f_xy_expr = 0 \<and> f_xy_expr \<noteq> f_xy_mult_expr
   \<and> solve_nonlinear correctly_rounded Paraboloid_init
     \<lparr>params = [''x'' \<mapsto> flt 0, ''y'' \<mapsto> Finite False 4503599627370496 460],
      unknowns = [''f_xy'' \<mapsto> flt 0], resids = [''f_xy'' \<mapsto> flt 0]\<rparr>
     = Inl OverflowError
   \<and> solve_nonlinear_mult Paraboloid_init
     \<lparr>params = [''x'' \<mapsto> flt 0, ''y'' \<mapsto> Finite False 4503599627370496 460],
      unknowns = [''f_xy'' \<mapsto> flt 0], resids = [''f_xy'' \<mapsto> flt 0]\<rparr>
     = Inr \<lparr>params = [''x'' \<mapsto> flt 0, ''y'' \<mapsto> Finite False 4503599627370496 460],
            unknowns = [''f_xy'' \<mapsto> Infinity False], resids = [''f_xy'' \<mapsto> flt 0]\<rparr>"
  by (simp add: f_xy_expr_def f_xy_mult_expr_def solve_nonlinear_def solve_nonlinear_mult_def
      overflow_input)

text \<open>
  Claim C8, amended: the objective is written with two power operators of exponent 2,
  where the multiplication form has none. For every pair of inputs that are multiples
  of 1/1024 of magnitude at most 16384 both squares are exact, and solve_nonlinear as
  written and its multiplication form return the same state, whatever the C library's
  rounding of pow.
\<close>

theorem solve_nonlinear_power_form:
  "pow_count f_xy_expr = 2 \<and> pow_count f_xy_mult_expr = 0
   \<and> (params st ''x'' = Some x \<and> params st ''y'' = Some y \<longrightarrow>
        solve_nonlinear up self st =
          (case eval up (xy_env x y) f_xy_expr of
             Inl err \<Rightarrow> Inl err
           | Inr v \<Rightarrow> Inr (st\<lparr>unknowns := (unknowns st)(''f_xy'' \<mapsto> v)\<rparr>))
        \<and> solve_nonlinear_mult self st =
          (case eval up (xy_env x y) f_xy_mult_expr of
             Inl err \<Rightarrow> Inl err
           | Inr v \<Rightarrow> Inr (st\<lparr>unknowns := (unknowns st)(''f_xy'' \<mapsto> v)\<rparr>)))
   \<and> (params st ''x'' = Some x \<and> params st ''y'' = Some y
        \<and> is_finite x \<and> is_finite y
        \<and> valof x = of_int n / 1024 \<and> valof y = of_int k / 1024
        \<and> \<bar>n\<bar> \<le> 2 ^ 24 \<and> \<bar>k\<bar> \<le> 2 ^ 24 \<longrightarrow>
        solve_nonlinear up self st = solve_nonlinear_mult self st)"
proof (intro conjI impI)
  assume h: "params st ''x'' = Some x \<and> params st ''y'' = Some y
        \<and> is_finite x \<and> is_finite y
        \<and> valof x = of_int n / 1024 \<and> valof y = of_int k / 1024
        \<and> \<bar>n\<bar> \<le> 2 ^ 24 \<and> \<bar>k\<bar> \<le> 2 ^ 24"
  then have gx: "gridv (- 10) x n" and gy: "gridv (- 10) y k"
    and n: "\<bar>n\<bar> \<le> 2 ^ 24" and k: "\<bar>k\<bar> \<le> 2 ^ 24"
    by (simp_all add: gridv_1024)
  from h show "solve_nonlinear up self st = solve_nonlinear_mult self st"
    by (simp add: solve_nonlinear_supplied solve_nonlinear_mult_def
        f_xy_grid(1) [OF gx gy n k])
next
  show "pow_count f_xy_expr = 2"
    by (simp add: f_xy_expr_def)
  show "pow_count f_xy_mult_expr = 0"
    by (simp add: f_xy_mult_expr_def)
next
  assume "params st ''x'' = Some x \<and> params st ''y'' = Some y"
  then show "solve_nonlinear up self st =
          (case eval up (xy_env x y) f_xy_expr of
             Inl err \<Rightarrow> Inl err
           | Inr v \<Rightarrow> Inr (st\<lparr>unknowns := (unknowns st)(''f_xy'' \<mapsto> v)\<rparr>))"
    by (simp add: solve_nonlinear_supplied eval_f_xy_expr)
next
  assume "params st ''x'' = Some x \<and> params st ''y'' = Some y"
  then show "solve_nonlinear_mult self st =
          (case eval up (xy_env x y) f_xy_mult_expr of
             Inl err \<Rightarrow> Inl err
           | Inr v \<Rightarrow> Inr (st\<lparr>unknowns := (unknowns st)(''f_xy'' \<mapsto> v)\<rparr>))"
    by (simp add: solve_nonlinear_mult_def eval_f_xy_mult_expr)
qed

theorem solve_nonlinear_power_form_witness:
  "solve_nonlinear correctly_rounded Paraboloid_init
     \<lparr>params = [''x'' \<mapsto> flt 5, ''y'' \<mapsto> flt 2], unknowns = [''f_xy'' \<mapsto> flt 0],
      resids = Map.empty\<rparr>
   = solve_nonlinear_mult Paraboloid_init
     \<lparr>params = [''x'' \<mapsto> flt 5, ''y'' \<mapsto> flt 2], unknowns = [''f_xy'' \<mapsto> flt 0],
      resids = Map.empty\<rparr>
   \<and> solve_nonlinear_mult Paraboloid_init
     \<lparr>params = [''x'' \<mapsto> flt 5, ''y'' \<mapsto> flt 2], unknowns = [''f_xy'' \<mapsto> flt 0],
      resids = Map.empty\<rparr>
   = Inr \<lparr>params = [''x'' \<mapsto> flt 5, ''y'' \<mapsto> flt 2], unknowns = [''f_xy'' \<mapsto> flt 47],
          resids = Map.empty\<rparr>
   \<and> eval correctly_rounded (xy_env (flt 5) (flt 2)) f_xy_expr = Inr (flt 47)"
  using solve_nonlinear_power_form
    [where st = "\<lparr>params = [''x'' \<mapsto> flt 5, ''y'' \<mapsto> flt 2], unknowns = [''f_xy'' \<mapsto> flt 0],
                  resids = Map.empty\<rparr>"
       and x = "flt 5" and y = "flt 2" and n = 5120 and k = 2048
       and self = Paraboloid_init and up = correctly_rounded]
  by (simp add: flt_val solve_nonlinear_mult_def f_xy_mult_literals eval_f_xy_expr f_xy_literals)

end
